theory Spec2Isabelle
  imports Main "HOL-Library.Sublist"
begin

section \<open>Bytes, errors and the C library\<close>

text \<open>
  The extension type \<open>cstring\<close> of \<open>src/cstring.c\<close> stores its bytes in a \<open>char value[]\<close> array
  that ends with a zero byte. A byte is a \<open>char\<close>; a buffer is a \<open>string\<close> (a list of bytes)
  holding every byte of the array, the terminator included. A pointer into a buffer is
  the buffer together with an integer offset.

  A name of the source that starts with an underscore carries the prefix \<open>priv_\<close> here
  (\<open>_cstring_new\<close> is \<open>priv_cstring_new\<close>). The host's own objects (lists, tuples, integers
  and booleans) are values of the model and are taken as allocated; parsing of the
  argument tuple is taken as done, so a function receives its arguments as it would read
  them after \<open>PyArg_ParseTuple\<close>.
\<close>

definition NUL :: char where
  "NUL = CHR 0x00"

text \<open>
  The outcomes other than a normal return. \<open>TypeError\<close>, \<open>ValueError\<close> and \<open>IndexError\<close>
  are the Python exceptions the source sets with \<open>PyErr_Format\<close> and \<open>PyErr_SetString\<close>;
  \<open>BadArgument\<close>, \<open>BadInternalCall\<close> and \<open>NoMemory\<close> stand for \<open>PyErr_BadArgument\<close>,
  \<open>PyErr_BadInternalCall\<close> and \<open>PyErr_NoMemory\<close> (or a failed \<open>tp_alloc\<close>). \<open>Undefined\<close> is
  undefined behaviour of the C program: a read outside the memory of an object, a write
  outside its array, or the use of a pointer to no object.
\<close>

datatype error =
  TypeError | ValueError | IndexError | BadArgument | BadInternalCall | NoMemory | Undefined

text \<open>
  The C string that starts at \<open>b + i\<close>: the bytes up to, and without, the first zero byte.
  When the array holds no zero byte from \<open>i\<close> on, a library function scanning for the
  terminator leaves the array.
\<close>

definition c_str :: "string \<Rightarrow> int \<Rightarrow> error + string" where
  "c_str b i =
     (if 0 \<le> i \<and> i < int (length b) \<and> NUL \<in> set (drop (nat i) b)
      then Inr (takeWhile (\<lambda>c. c \<noteq> NUL) (drop (nat i) b))
      else Inl Undefined)"

definition strlen :: "string \<Rightarrow> int \<Rightarrow> error + int" where
  "strlen b i = (case c_str b i of Inl e \<Rightarrow> Inl e | Inr s \<Rightarrow> Inr (int (length s)))"

text \<open>
  \<open>strstr\<close> on the contents of two C strings: the offset of the first occurrence of the
  needle in the haystack. The empty needle occurs at offset 0.
\<close>

fun strstr_str :: "string \<Rightarrow> string \<Rightarrow> nat option" where
  "strstr_str [] n = (if n = [] then Some 0 else None)"
| "strstr_str (c # cs) n =
     (if prefix n (c # cs) then Some 0 else map_option Suc (strstr_str cs n))"

text \<open>\<open>strstr(b + i, n + j)\<close>, as an offset into \<open>b\<close>; \<open>None\<close> is the null pointer.\<close>

definition strstr :: "string \<Rightarrow> int \<Rightarrow> string \<Rightarrow> int \<Rightarrow> error + int option" where
  "strstr b i n j =
     (case c_str b i of Inl e \<Rightarrow> Inl e
      | Inr h \<Rightarrow>
          (case c_str n j of Inl e \<Rightarrow> Inl e
           | Inr m \<Rightarrow> Inr (map_option (\<lambda>k. i + int k) (strstr_str h m))))"

text \<open>
  \<open>strchr(chars, c)\<close>, as an offset into \<open>chars\<close>. The terminator counts as part of the
  string: \<open>strchr(chars, 0)\<close> points to it and is not null.
\<close>

fun index_of :: "char \<Rightarrow> string \<Rightarrow> nat option" where
  "index_of c [] = None"
| "index_of c (x # xs) = (if x = c then Some 0 else map_option Suc (index_of c xs))"

definition strchr :: "string \<Rightarrow> char \<Rightarrow> error + nat option" where
  "strchr chars c =
     (case c_str chars 0 of Inl e \<Rightarrow> Inl e
      | Inr s \<Rightarrow> Inr (if c = NUL then Some (length s) else index_of c s))"

text \<open>
  \<open>memcmp(b + i, n + j, k)\<close>: the sign of the first difference among \<open>k\<close> bytes, compared
  in order as unsigned bytes. A byte is read only when all the bytes before it are equal,
  so an array that ends early matters only when no difference comes first.
\<close>

fun memcmp_str :: "string \<Rightarrow> string \<Rightarrow> nat \<Rightarrow> error + int" where
  "memcmp_str xs ys 0 = Inr 0"
| "memcmp_str (x # xs) (y # ys) (Suc k) =
     (if x = y then memcmp_str xs ys k
      else if (of_char x :: nat) < of_char y then Inr (- 1) else Inr 1)"
| "memcmp_str _ _ (Suc k) = Inl Undefined"

definition memcmp :: "string \<Rightarrow> int \<Rightarrow> string \<Rightarrow> int \<Rightarrow> int \<Rightarrow> error + int" where
  "memcmp b i n j k =
     (if 0 \<le> k \<and> 0 \<le> i \<and> i \<le> int (length b) \<and> 0 \<le> j \<and> j \<le> int (length n)
      then memcmp_str (drop (nat i) b) (drop (nat j) n) (nat k)
      else Inl Undefined)"

text \<open>\<open>memcpy(d + i, s + j, k)\<close>: the destination array after the copy.\<close>

definition memcpy :: "string \<Rightarrow> int \<Rightarrow> string \<Rightarrow> int \<Rightarrow> int \<Rightarrow> error + string" where
  "memcpy d i s j k =
     (if 0 \<le> k \<and> 0 \<le> i \<and> i + k \<le> int (length d) \<and> 0 \<le> j \<and> j + k \<le> int (length s)
      then Inr (take (nat i) d @ take (nat k) (drop (nat j) s) @ drop (nat (i + k)) d)
      else Inl Undefined)"

text \<open>\<open>d[i] = c\<close>.\<close>

definition poke :: "string \<Rightarrow> int \<Rightarrow> char \<Rightarrow> error + string" where
  "poke d i c = (if 0 \<le> i \<and> i < int (length d) then Inr (d[nat i := c]) else Inl Undefined)"

text \<open>The \<open><ctype.h>\<close> classification of the "C" locale.\<close>

definition isdigit :: "char \<Rightarrow> bool" where
  "isdigit c = (48 \<le> (of_char c :: nat) \<and> (of_char c :: nat) \<le> 57)"

definition isupper :: "char \<Rightarrow> bool" where
  "isupper c = (65 \<le> (of_char c :: nat) \<and> (of_char c :: nat) \<le> 90)"

definition islower :: "char \<Rightarrow> bool" where
  "islower c = (97 \<le> (of_char c :: nat) \<and> (of_char c :: nat) \<le> 122)"

definition isalpha :: "char \<Rightarrow> bool" where
  "isalpha c = (isupper c \<or> islower c)"

definition isalnum :: "char \<Rightarrow> bool" where
  "isalnum c = (isalpha c \<or> isdigit c)"

definition isspace :: "char \<Rightarrow> bool" where
  "isspace c = ((of_char c :: nat) = 32 \<or> (9 \<le> (of_char c :: nat) \<and> (of_char c :: nat) \<le> 13))"

definition isprint :: "char \<Rightarrow> bool" where
  "isprint c = (32 \<le> (of_char c :: nat) \<and> (of_char c :: nat) \<le> 126)"

text \<open>\<open>#define WHITESPACE_CHARS " \t\n\v\f\r"\<close>, as the array the literal denotes.\<close>

definition WHITESPACE_CHARS :: string where
  "WHITESPACE_CHARS = [CHR '' '', CHR 0x09, CHR 0x0A, CHR 0x0B, CHR 0x0C, CHR 0x0D, NUL]"

definition PY_SSIZE_T_MAX :: int where
  "PY_SSIZE_T_MAX = 2 ^ 63 - 1"

section \<open>Objects\<close>

text \<open>
  \<open>struct cstring\<close>: the variable-size object header (\<open>ob_refcnt\<close>, and \<open>ob_size\<close>, which
  \<open>Py_SIZE\<close> reads), the cached \<open>hash\<close> and the array \<open>value\<close>. The array has exactly
  \<open>ob_size\<close> bytes at every point of the source (\<open>tp_alloc\<close> and \<open>_cstring_realloc\<close> set
  both together), so the model keeps the array in \<open>val\<close> and reads \<open>Py_SIZE\<close> off its length.

  \<open>spare\<close> holds the bytes of the allocation that follow the array. \<open>PyType_GenericAlloc\<close>
  allocates one item more than it is asked for and zeroes the block, so an object from
  \<open>tp_alloc\<close> has one zero byte there; \<open>PyObject_Realloc\<close> is asked for the exact size and
  leaves none. A read through a pointer sees \<open>mem\<close>, the array followed by the spare
  bytes; the source writes to the array only.
\<close>

record cstring =
  ob_refcnt :: int
  hash :: int
  val :: string
  spare :: string

definition Py_SIZE :: "cstring \<Rightarrow> int" where
  "Py_SIZE c = int (length (val c))"

definition mem :: "cstring \<Rightarrow> string" where
  "mem c = val c @ spare c"

text \<open>
  The store: the \<open>cstring\<close> objects by address, the first address never handed out, and
  the static pointer \<open>cstring_EMPTY\<close>.
\<close>

type_synonym addr = nat

record pystate =
  heap :: "addr \<rightharpoonup> cstring"
  brk :: addr
  cstring_EMPTY :: "addr option"

text \<open>
  A \<open>PyObject *\<close> argument: a \<open>str\<close> (with its UTF-8 bytes, which CPython follows with a
  zero byte), an object with the buffer protocol, a \<open>cstring\<close> (by address), \<open>None\<close>, or an
  object of another type (with its \<open>tp_name\<close>). A buffer is given by the memory that can be
  read from \<open>view.buf\<close> on and by \<open>view.len\<close>: for a \<open>bytes\<close> or a \<open>bytearray\<close> a zero byte
  follows the \<open>view.len\<close> bytes, for a slice of a \<open>memoryview\<close> or an array whatever the
  exporter holds there.
\<close>

datatype pyobj =
  PyUnicode string | PyBuffer string nat | PyCstring addr | Py_None | PyOther string

text \<open>
  The host's allocator decides whether a request for a number of bytes is granted, and
  \<open>_Py_HashBytes\<close> is CPython's: both are parameters of the functions that use them.
\<close>

type_synonym allocator = "nat \<Rightarrow> bool"

type_synonym hashfn = "string \<Rightarrow> int"

text \<open>
  \<open>CSTRING_ALLOC(tp, len)\<close> is \<open>tp->tp_alloc(tp, len)\<close>, and \<open>cstring_type\<close> inherits
  \<open>PyType_GenericAlloc\<close>: a new object with reference count 1, size \<open>len\<close> and every
  other byte zero, so its \<open>hash\<close> field is 0. No caller passes a negative size unless
  it has already left an array.
\<close>

definition CSTRING_ALLOC :: "allocator \<Rightarrow> int \<Rightarrow> pystate \<Rightarrow> (error + addr) \<times> pystate" where
  "CSTRING_ALLOC A len st =
     (if len < 0 then (Inl Undefined, st)
      else if \<not> A (nat len) then (Inl NoMemory, st)
      else (Inr (brk st),
            st\<lparr>heap := (heap st)(brk st \<mapsto> \<lparr>ob_refcnt = 1, hash = 0, val = replicate (nat len) NUL,
                               spare = [NUL]\<rparr>),
               brk := Suc (brk st)\<rparr>))"

definition Py_INCREF :: "addr \<Rightarrow> pystate \<Rightarrow> pystate" where
  "Py_INCREF a st =
     (case heap st a of None \<Rightarrow> st
      | Some c \<Rightarrow> st\<lparr>heap := (heap st)(a \<mapsto> c\<lparr>ob_refcnt := ob_refcnt c + 1\<rparr>)\<rparr>)"

text \<open>\<open>Py_DECREF\<close>: at zero, \<open>cstring_dealloc\<close> frees the object.\<close>

definition Py_DECREF :: "addr \<Rightarrow> pystate \<Rightarrow> pystate" where
  "Py_DECREF a st =
     (case heap st a of None \<Rightarrow> st
      | Some c \<Rightarrow>
          (if ob_refcnt c - 1 = 0 then st\<lparr>heap := (heap st)(a := None)\<rparr>
           else st\<lparr>heap := (heap st)(a \<mapsto> c\<lparr>ob_refcnt := ob_refcnt c - 1\<rparr>)\<rparr>))"

text \<open>
  \<open>_cstring_new(type, value, len)\<close>, with \<open>value = b + j\<close>: allocate \<open>len + 1\<close> bytes, set the
  hash to the sentinel, copy \<open>len\<close> bytes and write the terminator into the last byte.
\<close>

definition priv_cstring_new ::
  "allocator \<Rightarrow> string \<Rightarrow> int \<Rightarrow> int \<Rightarrow> pystate \<Rightarrow> (error + addr) \<times> pystate" where
  "priv_cstring_new A b j len st =
     (case CSTRING_ALLOC A (len + 1) st of
        (Inl e, st') \<Rightarrow> (Inl e, st')
      | (Inr new, st') \<Rightarrow>
          (case memcpy (replicate (nat (len + 1)) NUL) 0 b j len of
             Inl e \<Rightarrow> (Inl e, st')
           | Inr v \<Rightarrow>
               (case poke v (int (length v) - 1) NUL of
                  Inl e \<Rightarrow> (Inl e, st')
                | Inr v' \<Rightarrow>
                    (Inr new,
                     st'\<lparr>heap := (heap st')(new \<mapsto>
                       \<lparr>ob_refcnt = 1, hash = - 1, val = v', spare = [NUL]\<rparr>)\<rparr>))))"

text \<open>\<open>cstring_len\<close> is \<open>Py_SIZE(self) - 1\<close>.\<close>

definition cstring_len :: "cstring \<Rightarrow> int" where
  "cstring_len c = Py_SIZE c - 1"

text \<open>
  \<open>_cstring_realloc(self, len)\<close>: refused with a bad internal call when the object has
  more than one reference; otherwise the object is resized to \<open>len + 1\<close> bytes (the bytes
  beyond the old ones are not initialised: the model fills them with zero), no spare byte
  is left, and its hash is reset to the sentinel. \<open>PyObject_Realloc\<close> may move the block; callers use only the
  pointer returned, which the model keeps equal to the old address.
\<close>

definition priv_cstring_realloc ::
  "allocator \<Rightarrow> addr \<Rightarrow> int \<Rightarrow> pystate \<Rightarrow> (error + addr) \<times> pystate" where
  "priv_cstring_realloc A self len st =
     (case heap st self of
        None \<Rightarrow> (Inl Undefined, st)
      | Some c \<Rightarrow>
          (if ob_refcnt c > 1 then (Inl BadInternalCall, st)
           else if len + 1 < 0 then (Inl Undefined, st)
           else if \<not> A (nat (len + 1)) then (Inl NoMemory, st)
           else (Inr self,
                 st\<lparr>heap := (heap st)(self \<mapsto>
                      c\<lparr>hash := - 1,
                        val := take (nat (len + 1)) (val c)
                               @ replicate (nat (len + 1) - length (val c)) NUL,
                        spare := []\<rparr>)\<rparr>)))"

text \<open>\<open>_cstring_copy(self)\<close>.\<close>

definition priv_cstring_copy :: "allocator \<Rightarrow> addr \<Rightarrow> pystate \<Rightarrow> (error + addr) \<times> pystate" where
  "priv_cstring_copy A self st =
     (case heap st self of
        None \<Rightarrow> (Inl Undefined, st)
      | Some c \<Rightarrow> priv_cstring_new A (val c) 0 (Py_SIZE c - 1) st)"

text \<open>
  \<open>cstring_new_empty\<close>: the singleton is created on first use; every call adds a
  reference to it. The result of \<open>_cstring_new\<close> is not tested, so a failed allocation
  reaches \<open>Py_INCREF\<close> as a null pointer.
\<close>

definition cstring_new_empty :: "allocator \<Rightarrow> pystate \<Rightarrow> (error + addr) \<times> pystate" where
  "cstring_new_empty A st =
     (case cstring_EMPTY st of
        Some a \<Rightarrow> (Inr a, Py_INCREF a st)
      | None \<Rightarrow>
          (case priv_cstring_new A [NUL] 0 0 st of
             (Inl e, st') \<Rightarrow> (Inl Undefined, st')
           | (Inr a, st') \<Rightarrow> (Inr a, Py_INCREF a (st'\<lparr>cstring_EMPTY := Some a\<rparr>))))"

text \<open>\<open>_ensure_cstring\<close>: the address of the object when it is a \<open>cstring\<close>.\<close>

definition priv_ensure_cstring :: "pyobj \<Rightarrow> error + addr" where
  "priv_ensure_cstring o' = (case o' of PyCstring a \<Rightarrow> Inr a | _ \<Rightarrow> Inl TypeError)"

text \<open>
  \<open>cstring_hash\<close>: when the field holds the sentinel, \<open>_Py_HashBytes\<close> over \<open>Py_SIZE(self)\<close>
  bytes of the array is stored into it; the field is returned.
\<close>

definition cstring_hash :: "hashfn \<Rightarrow> addr \<Rightarrow> pystate \<Rightarrow> (error + int) \<times> pystate" where
  "cstring_hash H self st =
     (case heap st self of
        None \<Rightarrow> (Inl Undefined, st)
      | Some c \<Rightarrow>
          (if hash c = - 1
           then (Inr (H (val c)), st\<lparr>heap := (heap st)(self \<mapsto> c\<lparr>hash := H (val c)\<rparr>)\<rparr>)
           else (Inr (hash c), st)))"

text \<open>
  \<open>cstring_richcompare\<close>. The loop advances both pointers together while both bytes are
  non-zero and equal; the operator is applied to the two bytes it stops at. A \<open>char\<close> is
  compared as a signed byte.
\<close>

datatype cmp_op = Py_LT | Py_LE | Py_EQ | Py_NE | Py_GT | Py_GE

definition schar :: "char \<Rightarrow> int" where
  "schar c = (if (of_char c :: nat) < 128 then int (of_char c) else int (of_char c) - 256)"

function richcompare_scan :: "string \<Rightarrow> string \<Rightarrow> nat \<Rightarrow> error + char \<times> char" where
  "richcompare_scan l r i =
     (if i < length l \<and> i < length r
      then (if l ! i \<noteq> NUL \<and> r ! i \<noteq> NUL \<and> l ! i = r ! i
            then richcompare_scan l r (Suc i)
            else Inr (l ! i, r ! i))
      else Inl Undefined)"
  by pat_completeness auto
termination
  by (relation "measure (\<lambda>(l, r, i). length l - i)") auto

declare richcompare_scan.simps [simp del]

definition cstring_richcompare ::
  "addr \<Rightarrow> pyobj \<Rightarrow> cmp_op \<Rightarrow> pystate \<Rightarrow> error + bool" where
  "cstring_richcompare self other op st =
     (case priv_ensure_cstring other of
        Inl e \<Rightarrow> Inl e
      | Inr oa \<Rightarrow>
          (case (heap st self, heap st oa) of
             (Some c, Some d) \<Rightarrow>
               (case richcompare_scan (mem c) (mem d) 0 of
                  Inl e \<Rightarrow> Inl e
                | Inr (x, y) \<Rightarrow>
                    Inr (case op of
                           Py_EQ \<Rightarrow> x = y
                         | Py_NE \<Rightarrow> x \<noteq> y
                         | Py_LT \<Rightarrow> schar x < schar y
                         | Py_GT \<Rightarrow> schar x > schar y
                         | Py_LE \<Rightarrow> schar x \<le> schar y
                         | Py_GE \<Rightarrow> schar x \<ge> schar y))
           | _ \<Rightarrow> Inl Undefined))"

text \<open>
  \<open>cstring_concat\<close>: the new object comes from \<open>CSTRING_ALLOC\<close> and receives the two
  arrays, terminators included. Its \<open>hash\<close> field is not assigned.
\<close>

definition cstring_concat ::
  "allocator \<Rightarrow> pyobj \<Rightarrow> pyobj \<Rightarrow> pystate \<Rightarrow> (error + addr) \<times> pystate" where
  "cstring_concat A left right st =
     (case priv_ensure_cstring left of
        Inl e \<Rightarrow> (Inl e, st)
      | Inr la \<Rightarrow>
          (case priv_ensure_cstring right of
             Inl e \<Rightarrow> (Inl e, st)
           | Inr ra \<Rightarrow>
               (case (heap st la, heap st ra) of
                  (Some l, Some r) \<Rightarrow>
                    (case CSTRING_ALLOC A (cstring_len l + cstring_len r + 1) st of
                       (Inl e, st') \<Rightarrow> (Inl e, st')
                     | (Inr new, st') \<Rightarrow>
                         (case heap st' new of
                            None \<Rightarrow> (Inl Undefined, st')
                          | Some n \<Rightarrow>
                              (case memcpy (val n) 0 (val l) 0 (Py_SIZE l) of
                                 Inl e \<Rightarrow> (Inl e, st')
                               | Inr v \<Rightarrow>
                                   (case memcpy v (cstring_len l) (val r) 0 (Py_SIZE r) of
                                      Inl e \<Rightarrow> (Inl e, st')
                                    | Inr v' \<Rightarrow>
                                        (Inr new,
                                         st'\<lparr>heap := (heap st')(new \<mapsto> n\<lparr>val := v'\<rparr>)\<rparr>)))))
                | _ \<Rightarrow> (Inl Undefined, st))))"

text \<open>
  \<open>_concat_in_place(self, other)\<close>; either pointer may be null (\<open>None\<close>). The arguments of
  the \<open>memcpy\<close> are evaluated after the reallocation, from the store it leaves.
\<close>

definition priv_concat_in_place ::
  "allocator \<Rightarrow> pyobj option \<Rightarrow> pyobj option \<Rightarrow> pystate \<Rightarrow> (error + addr) \<times> pystate" where
  "priv_concat_in_place A self other st =
     (case other of
        None \<Rightarrow> (Inl BadArgument, st)
      | Some ob \<Rightarrow>
          (case priv_ensure_cstring ob of
             Inl e \<Rightarrow> (Inl e, st)
           | Inr oa \<Rightarrow>
               (case self of
                  None \<Rightarrow> priv_cstring_copy A oa st
                | Some sb \<Rightarrow>
                    (case priv_ensure_cstring sb of
                       Inl e \<Rightarrow> (Inl e, st)
                     | Inr sa \<Rightarrow>
                         (case (heap st sa, heap st oa) of
                            (Some c, Some d) \<Rightarrow>
                              (case priv_cstring_realloc A sa (cstring_len c + cstring_len d) st of
                                 (Inl e, st') \<Rightarrow> (Inl e, st')
                               | (Inr new, st') \<Rightarrow>
                                   (case (heap st' new, heap st' oa) of
                                      (Some n, Some d') \<Rightarrow>
                                        (case memcpy (val n) (cstring_len c) (val d') 0 (cstring_len d') of
                                           Inl e \<Rightarrow> (Inl e, st')
                                         | Inr v \<Rightarrow>
                                             (case poke v (int (length v) - 1) NUL of
                                                Inl e \<Rightarrow> (Inl e, st')
                                              | Inr v' \<Rightarrow>
                                                  (Inr new,
                                                   st'\<lparr>heap := (heap st')(new \<mapsto> n\<lparr>val := v'\<rparr>)\<rparr>)))
                                    | _ \<Rightarrow> (Inl Undefined, st')))
                          | _ \<Rightarrow> (Inl Undefined, st))))))"

section \<open>The substring window\<close>

definition priv_fix_index :: "int \<Rightarrow> int \<Rightarrow> int" where
  "priv_fix_index i len =
     (let result = i;
          result = (if result < 0 then result + len else result);
          result = (if result < 0 then 0 else result);
          result = (if result > len then len else result)
      in result)"

text \<open>
  \<open>struct _substr_params\<close>. \<open>start\<close> and \<open>end\<close> point into the array of \<open>self\<close> and are kept
  as offsets into it; \<open>substr\<close> is the array of the pattern.
\<close>

record substr_params =
  params_start :: int
  params_end :: int
  params_substr :: string
  params_substr_len :: int

text \<open>
  \<open>_obj_as_string_and_size\<close>: the pointer and the byte count of a \<open>str\<close>, a buffer or a
  \<open>cstring\<close>, tested in this order; a type error for anything else. The pointer is returned
  as the memory that can be read from it.
\<close>

definition priv_obj_as_string_and_size :: "pyobj \<Rightarrow> pystate \<Rightarrow> error + string \<times> int" where
  "priv_obj_as_string_and_size ob st =
     (case ob of
        PyUnicode u \<Rightarrow> Inr (u @ [NUL], int (length u))
      | PyBuffer m n \<Rightarrow> Inr (m, int n)
      | PyCstring a \<Rightarrow>
          (case heap st a of None \<Rightarrow> Inl Undefined | Some c \<Rightarrow> Inr (mem c, Py_SIZE c - 1))
      | _ \<Rightarrow> Inl TypeError)"

text \<open>
  \<open>_parse_substr_args\<close>: the arguments are the pattern and the optional \<open>start\<close> and
  \<open>end\<close>, which default to 0 and \<open>PY_SSIZE_T_MAX\<close>.
\<close>

definition priv_parse_substr_args ::
  "addr \<Rightarrow> pyobj \<times> int option \<times> int option \<Rightarrow> pystate \<Rightarrow> error + substr_params" where
  "priv_parse_substr_args self args st =
     (case args of
        (substr_obj, s, e) \<Rightarrow>
          (let start = (case s of None \<Rightarrow> 0 | Some x \<Rightarrow> x);
               end' = (case e of None \<Rightarrow> PY_SSIZE_T_MAX | Some x \<Rightarrow> x)
           in case priv_obj_as_string_and_size substr_obj st of
                Inl err \<Rightarrow> Inl err
              | Inr (substr, substr_len) \<Rightarrow>
                  (case heap st self of
                     None \<Rightarrow> Inl Undefined
                   | Some c \<Rightarrow>
                       Inr \<lparr>params_start = priv_fix_index start (cstring_len c),
                            params_end = priv_fix_index end' (cstring_len c),
                            params_substr = substr,
                            params_substr_len = substr_len\<rparr>)))"

text \<open>
  The loop of \<open>cstring_count\<close> over the array \<open>b\<close> of \<open>self\<close>, which nothing writes to
  meanwhile. The loop need not end: the result is \<open>None\<close> when it does not.
\<close>

partial_function (option) count_loop ::
  "string \<Rightarrow> substr_params \<Rightarrow> int \<Rightarrow> int \<Rightarrow> (error + int) option" where
  "count_loop b params p result =
     (case strstr b p (params_substr params) 0 of
        Inl e \<Rightarrow> Some (Inl e)
      | Inr None \<Rightarrow> Some (Inr result)
      | Inr (Some q) \<Rightarrow>
          (if q + params_substr_len params \<ge> params_end params
           then Some (Inr (result + 1))
           else count_loop b params (q + params_substr_len params) (result + 1)))"

declare count_loop.simps [code]

definition cstring_count ::
  "addr \<Rightarrow> pyobj \<times> int option \<times> int option \<Rightarrow> pystate \<Rightarrow> (error + int) option" where
  "cstring_count self args st =
     (case priv_parse_substr_args self args st of
        Inl e \<Rightarrow> Some (Inl e)
      | Inr params \<Rightarrow>
          (case heap st self of
             None \<Rightarrow> Some (Inl Undefined)
           | Some c \<Rightarrow> count_loop (mem c) params (params_start params) 0))"

definition priv_substr_params_str :: "string \<Rightarrow> substr_params \<Rightarrow> error + int option" where
  "priv_substr_params_str b params =
     (case strstr b (params_start params) (params_substr params) 0 of
        Inl e \<Rightarrow> Inl e
      | Inr None \<Rightarrow> Inr None
      | Inr (Some p) \<Rightarrow>
          (if p + params_substr_len params > params_end params then Inr None else Inr (Some p)))"

definition cstring_find ::
  "addr \<Rightarrow> pyobj \<times> int option \<times> int option \<Rightarrow> pystate \<Rightarrow> error + int" where
  "cstring_find self args st =
     (case priv_parse_substr_args self args st of
        Inl e \<Rightarrow> Inl e
      | Inr params \<Rightarrow>
          (case heap st self of
             None \<Rightarrow> Inl Undefined
           | Some c \<Rightarrow>
               (case priv_substr_params_str (mem c) params of
                  Inl e \<Rightarrow> Inl e
                | Inr None \<Rightarrow> Inr (- 1)
                | Inr (Some p) \<Rightarrow> Inr (p - 0))))"

definition cstring_index ::
  "addr \<Rightarrow> pyobj \<times> int option \<times> int option \<Rightarrow> pystate \<Rightarrow> error + int" where
  "cstring_index self args st =
     (case priv_parse_substr_args self args st of
        Inl e \<Rightarrow> Inl e
      | Inr params \<Rightarrow>
          (case heap st self of
             None \<Rightarrow> Inl Undefined
           | Some c \<Rightarrow>
               (case priv_substr_params_str (mem c) params of
                  Inl e \<Rightarrow> Inl e
                | Inr None \<Rightarrow> Inl ValueError
                | Inr (Some p) \<Rightarrow> Inr (p - 0))))"

section \<open>Character predicates\<close>

text \<open>
  \<open>cstring_isalnum\<close>, \<open>cstring_isalpha\<close>, \<open>cstring_isdigit\<close> and \<open>cstring_isprintable\<close> are
  the same loop over four predicates: \<open>while(*p)\<close>, false at the first byte that fails,
  true when the loop ends. \<open>ctype_scan\<close> is that loop; it returns the offset at which the
  zero byte was met, or \<open>None\<close> for the early return of false.
\<close>

function ctype_scan :: "(char \<Rightarrow> bool) \<Rightarrow> string \<Rightarrow> nat \<Rightarrow> error + nat option" where
  "ctype_scan pred b p =
     (if p < length b
      then (if b ! p \<noteq> NUL
            then (if \<not> pred (b ! p) then Inr None else ctype_scan pred b (Suc p))
            else Inr (Some p))
      else Inl Undefined)"
  by pat_completeness auto
termination
  by (relation "measure (\<lambda>(pred, b, p). length b - p)") auto

declare ctype_scan.simps [simp del]

definition cstring_isalnum :: "addr \<Rightarrow> pystate \<Rightarrow> error + bool" where
  "cstring_isalnum self st =
     (case heap st self of
        None \<Rightarrow> Inl Undefined
      | Some c \<Rightarrow>
          (case ctype_scan isalnum (mem c) 0 of
             Inl e \<Rightarrow> Inl e | Inr None \<Rightarrow> Inr False | Inr (Some p) \<Rightarrow> Inr True))"

definition cstring_isalpha :: "addr \<Rightarrow> pystate \<Rightarrow> error + bool" where
  "cstring_isalpha self st =
     (case heap st self of
        None \<Rightarrow> Inl Undefined
      | Some c \<Rightarrow>
          (case ctype_scan isalpha (mem c) 0 of
             Inl e \<Rightarrow> Inl e | Inr None \<Rightarrow> Inr False | Inr (Some p) \<Rightarrow> Inr True))"

definition cstring_isdigit :: "addr \<Rightarrow> pystate \<Rightarrow> error + bool" where
  "cstring_isdigit self st =
     (case heap st self of
        None \<Rightarrow> Inl Undefined
      | Some c \<Rightarrow>
          (case ctype_scan isdigit (mem c) 0 of
             Inl e \<Rightarrow> Inl e | Inr None \<Rightarrow> Inr False | Inr (Some p) \<Rightarrow> Inr True))"

definition cstring_isprintable :: "addr \<Rightarrow> pystate \<Rightarrow> error + bool" where
  "cstring_isprintable self st =
     (case heap st self of
        None \<Rightarrow> Inl Undefined
      | Some c \<Rightarrow>
          (case ctype_scan isprint (mem c) 0 of
             Inl e \<Rightarrow> Inl e | Inr None \<Rightarrow> Inr False | Inr (Some p) \<Rightarrow> Inr True))"

text \<open>\<open>cstring_isspace\<close> ends with \<open>p != CSTRING_VALUE(self)\<close> instead of true.\<close>

definition cstring_isspace :: "addr \<Rightarrow> pystate \<Rightarrow> error + bool" where
  "cstring_isspace self st =
     (case heap st self of
        None \<Rightarrow> Inl Undefined
      | Some c \<Rightarrow>
          (case ctype_scan isspace (mem c) 0 of
             Inl e \<Rightarrow> Inl e | Inr None \<Rightarrow> Inr False | Inr (Some p) \<Rightarrow> Inr (p \<noteq> 0)))"

text \<open>
  \<open>cstring_islower\<close> and \<open>cstring_isupper\<close>: the outer loop looks for the first alphabetic
  byte; from there the inner loop decides. \<open>want\<close> is \<open>islower\<close> or \<open>isupper\<close>.
\<close>

function case_scan_inner :: "(char \<Rightarrow> bool) \<Rightarrow> string \<Rightarrow> nat \<Rightarrow> error + bool" where
  "case_scan_inner want b p =
     (if p < length b
      then (if b ! p \<noteq> NUL
            then (if isalpha (b ! p) \<and> \<not> want (b ! p) then Inr False
                  else case_scan_inner want b (Suc p))
            else Inr True)
      else Inl Undefined)"
  by pat_completeness auto
termination
  by (relation "measure (\<lambda>(want, b, p). length b - p)") auto

declare case_scan_inner.simps [simp del]

function case_scan_outer :: "(char \<Rightarrow> bool) \<Rightarrow> string \<Rightarrow> nat \<Rightarrow> error + bool" where
  "case_scan_outer want b p =
     (if p < length b
      then (if b ! p \<noteq> NUL
            then (if isalpha (b ! p)
                  then (if \<not> want (b ! p) then Inr False else case_scan_inner want b (Suc p))
                  else case_scan_outer want b (Suc p))
            else Inr False)
      else Inl Undefined)"
  by pat_completeness auto
termination
  by (relation "measure (\<lambda>(want, b, p). length b - p)") auto

declare case_scan_outer.simps [simp del]

definition cstring_islower :: "addr \<Rightarrow> pystate \<Rightarrow> error + bool" where
  "cstring_islower self st =
     (case heap st self of
        None \<Rightarrow> Inl Undefined
      | Some c \<Rightarrow> case_scan_outer islower (mem c) 0)"

definition cstring_isupper :: "addr \<Rightarrow> pystate \<Rightarrow> error + bool" where
  "cstring_isupper self st =
     (case heap st self of
        None \<Rightarrow> Inl Undefined
      | Some c \<Rightarrow> case_scan_outer isupper (mem c) 0)"

section \<open>Join\<close>

text \<open>
  A reference taken or dropped on a \<open>PyObject *\<close>; only \<open>cstring\<close> objects live in the
  store. \<open>Py_XDECREF\<close> accepts the null pointer.
\<close>

definition incref_obj :: "pyobj \<Rightarrow> pystate \<Rightarrow> pystate" where
  "incref_obj ob st = (case ob of PyCstring a \<Rightarrow> Py_INCREF a st | _ \<Rightarrow> st)"

definition decref_obj :: "pyobj \<Rightarrow> pystate \<Rightarrow> pystate" where
  "decref_obj ob st = (case ob of PyCstring a \<Rightarrow> Py_DECREF a st | _ \<Rightarrow> st)"

definition Py_XDECREF :: "addr option \<Rightarrow> pystate \<Rightarrow> pystate" where
  "Py_XDECREF r st = (case r of None \<Rightarrow> st | Some a \<Rightarrow> Py_DECREF a st)"

text \<open>
  The loop of \<open>cstring_join(self, arg)\<close> over the items the iterator of \<open>arg\<close> yields.
  \<open>PyIter_Next\<close> hands out a new reference to each item. \<open>result\<close> starts as the null
  pointer and is returned as it is when there is no item.
\<close>

fun join_loop ::
  "allocator \<Rightarrow> addr \<Rightarrow> pyobj list \<Rightarrow> addr option \<Rightarrow> pystate \<Rightarrow> (error + addr option) \<times> pystate" where
  "join_loop A self [] result st = (Inr result, st)"
| "join_loop A self (item # rest) result st0 =
     (let st = incref_obj item st0 in
      case (case result of
              None \<Rightarrow> (Inr None, st)
            | Some r \<Rightarrow>
                (case priv_concat_in_place A (Some (PyCstring r)) (Some (PyCstring self)) st of
                   (Inl e, st') \<Rightarrow> (Inl e, st')
                 | (Inr next, st') \<Rightarrow> (Inr (Some next), st'))) of
        (Inl e, st') \<Rightarrow> (Inl e, Py_XDECREF result (decref_obj item st'))
      | (Inr result', st') \<Rightarrow>
          (case priv_concat_in_place A (map_option PyCstring result') (Some item) st' of
             (Inl e, st'') \<Rightarrow> (Inl e, Py_XDECREF result' (decref_obj item st''))
           | (Inr next, st'') \<Rightarrow> join_loop A self rest (Some next) (decref_obj item st'')))"

text \<open>\<open>arg\<close> is \<open>None\<close> when the object has no iterator.\<close>

definition cstring_join ::
  "allocator \<Rightarrow> addr \<Rightarrow> pyobj list option \<Rightarrow> pystate \<Rightarrow> (error + addr option) \<times> pystate" where
  "cstring_join A self arg st =
     (case arg of
        None \<Rightarrow> (Inl TypeError, st)
      | Some items \<Rightarrow> join_loop A self items None st)"

section \<open>Partition\<close>

text \<open>
  \<open>_strrstr(s, find)\<close> with \<open>s = b + 0\<close>: the loop starts at the last byte of the string
  and runs while \<open>p > s\<close>. Near the end of the string \<open>memcmp\<close> is asked for more bytes
  than the string has left; it meets the terminator, a difference, first.
\<close>

function strrstr_loop :: "string \<Rightarrow> string \<Rightarrow> int \<Rightarrow> error + int option" where
  "strrstr_loop b find' p =
     (if p > 0
      then (case strlen find' 0 of
              Inl e \<Rightarrow> Inl e
            | Inr n \<Rightarrow>
                (case memcmp b p find' 0 n of
                   Inl e \<Rightarrow> Inl e
                 | Inr r \<Rightarrow> (if r = 0 then Inr (Some p) else strrstr_loop b find' (p - 1))))
      else Inr None)"
  by pat_completeness auto
termination
  by (relation "measure (\<lambda>(b, find', p). nat p)") auto

declare strrstr_loop.simps [simp del]

definition priv_strrstr :: "string \<Rightarrow> string \<Rightarrow> error + int option" where
  "priv_strrstr b find' =
     (case strlen b 0 of
        Inl e \<Rightarrow> Inl e
      | Inr n \<Rightarrow> strrstr_loop b find' (0 + n - 1))"

text \<open>
  The three \<open>_cstring_new\<close> calls that build the tuple of a match at \<open>mid\<close>, taken from
  left to right; \<open>_tuple_steal_refs\<close> fails when one of them is null.
\<close>

definition partition_tuple ::
  "allocator \<Rightarrow> cstring \<Rightarrow> int \<Rightarrow> int \<Rightarrow> pystate \<Rightarrow> (error + addr \<times> addr \<times> addr) \<times> pystate" where
  "partition_tuple A c mid right st =
     (case priv_cstring_new A (mem c) 0 (mid - 0) st of
        (Inl e, st1) \<Rightarrow> (Inl e, st1)
      | (Inr x, st1) \<Rightarrow>
          (case priv_cstring_new A (mem c) mid (right - mid) st1 of
             (Inl e, st2) \<Rightarrow> (Inl e, st2)
           | (Inr y, st2) \<Rightarrow>
               (case priv_cstring_new A (mem c) right ((Py_SIZE c - 1) - right) st2 of
                  (Inl e, st3) \<Rightarrow> (Inl e, st3)
                | (Inr z, st3) \<Rightarrow> (Inr (x, y, z), st3))))"

definition cstring_partition ::
  "allocator \<Rightarrow> addr \<Rightarrow> pyobj \<Rightarrow> pystate \<Rightarrow> (error + addr \<times> addr \<times> addr) \<times> pystate" where
  "cstring_partition A self arg st =
     (case priv_ensure_cstring arg of
        Inl e \<Rightarrow> (Inl e, st)
      | Inr aa \<Rightarrow>
          (case (heap st self, heap st aa) of
             (Some c, Some d) \<Rightarrow>
               (case strstr (mem c) 0 (mem d) 0 of
                  Inl e \<Rightarrow> (Inl e, st)
                | Inr None \<Rightarrow>
                    (case cstring_new_empty A (Py_INCREF self st) of
                       (Inl e, st1) \<Rightarrow> (Inl e, st1)
                     | (Inr y, st1) \<Rightarrow>
                         (case cstring_new_empty A st1 of
                            (Inl e, st2) \<Rightarrow> (Inl e, st2)
                          | (Inr z, st2) \<Rightarrow> (Inr (self, y, z), st2)))
                | Inr (Some mid) \<Rightarrow>
                    (case strlen (mem d) 0 of
                       Inl e \<Rightarrow> (Inl e, st)
                     | Inr n \<Rightarrow> partition_tuple A c mid (mid + n) st))
           | _ \<Rightarrow> (Inl Undefined, st)))"

definition cstring_rpartition ::
  "allocator \<Rightarrow> addr \<Rightarrow> pyobj \<Rightarrow> pystate \<Rightarrow> (error + addr \<times> addr \<times> addr) \<times> pystate" where
  "cstring_rpartition A self arg st =
     (case priv_ensure_cstring arg of
        Inl e \<Rightarrow> (Inl e, st)
      | Inr aa \<Rightarrow>
          (case (heap st self, heap st aa) of
             (Some c, Some d) \<Rightarrow>
               (case priv_strrstr (mem c) (mem d) of
                  Inl e \<Rightarrow> (Inl e, st)
                | Inr None \<Rightarrow>
                    (case cstring_new_empty A st of
                       (Inl e, st1) \<Rightarrow> (Inl e, st1)
                     | (Inr x, st1) \<Rightarrow>
                         (case cstring_new_empty A st1 of
                            (Inl e, st2) \<Rightarrow> (Inl e, st2)
                          | (Inr y, st2) \<Rightarrow> (Inr (x, y, self), Py_INCREF self st2)))
                | Inr (Some mid) \<Rightarrow>
                    (case strlen (mem d) 0 of
                       Inl e \<Rightarrow> (Inl e, st)
                     | Inr n \<Rightarrow> partition_tuple A c mid (mid + n) st))
           | _ \<Rightarrow> (Inl Undefined, st)))"

section \<open>Split\<close>

text \<open>
  A list object is modelled by the addresses it holds. \<open>PyList_Append\<close> takes a reference
  to the item; \<open>Py_DECREF(list)\<close> on a list nobody else holds drops them all.
\<close>

definition PyList_Append :: "addr list \<Rightarrow> addr \<Rightarrow> pystate \<Rightarrow> addr list \<times> pystate" where
  "PyList_Append list new st = (list @ [new], Py_INCREF new st)"

definition decref_list :: "addr list \<Rightarrow> pystate \<Rightarrow> pystate" where
  "decref_list list st = fold Py_DECREF list st"

text \<open>
  The two inner loops of \<open>_cstring_split_on_chars\<close>:
  \<open>while(*end && !strchr(seps, *end)) ++end\<close> and \<open>while(*skip && strchr(seps, *skip)) ++skip\<close>.
\<close>

function scan_field :: "string \<Rightarrow> string \<Rightarrow> nat \<Rightarrow> error + nat" where
  "scan_field b seps e =
     (if e < length b
      then (if b ! e \<noteq> NUL
            then (case strchr seps (b ! e) of
                    Inl err \<Rightarrow> Inl err
                  | Inr None \<Rightarrow> scan_field b seps (Suc e)
                  | Inr (Some k) \<Rightarrow> Inr e)
            else Inr e)
      else Inl Undefined)"
  by pat_completeness auto
termination
  by (relation "measure (\<lambda>(b, seps, e). length b - e)") auto

declare scan_field.simps [simp del]

function scan_skip :: "string \<Rightarrow> string \<Rightarrow> nat \<Rightarrow> error + nat" where
  "scan_skip b seps k =
     (if k < length b
      then (if b ! k \<noteq> NUL
            then (case strchr seps (b ! k) of
                    Inl err \<Rightarrow> Inl err
                  | Inr None \<Rightarrow> Inr k
                  | Inr (Some j) \<Rightarrow> scan_skip b seps (Suc k))
            else Inr k)
      else Inl Undefined)"
  by pat_completeness auto
termination
  by (relation "measure (\<lambda>(b, seps, k). length b - k)") auto

declare scan_skip.simps [simp del]

text \<open>
  The outer loop of \<open>_cstring_split_on_chars\<close> over the memory \<open>b\<close> of \<open>self\<close>: one field
  from \<open>start\<close> to the next separator or terminator, then \<open>skip = end + 1\<close> and the run of
  separators after it; once \<open>maxsplit\<close> is reached the remainder becomes the last field.
  When the field ends at the terminator, \<open>skip\<close> is the byte after the array: the spare
  zero byte of an object from \<open>tp_alloc\<close>, where the loop then ends.
\<close>

function split_chars_loop ::
  "allocator \<Rightarrow> string \<Rightarrow> string \<Rightarrow> int \<Rightarrow> nat \<Rightarrow> addr list \<Rightarrow> pystate
    \<Rightarrow> (error + addr list) \<times> pystate" where
  "split_chars_loop A b seps maxsplit start list st =
     (if start < length b
      then (if b ! start \<noteq> NUL
            then (case scan_field b seps start of
                    Inl e \<Rightarrow> (Inl e, st)
                  | Inr end' \<Rightarrow>
                      (case priv_cstring_new A b (int start) (int end' - int start) st of
                         (Inl e, st1) \<Rightarrow> (Inl e, decref_list list st1)
                       | (Inr new, st1) \<Rightarrow>
                           (case PyList_Append list new st1 of
                              (list1, st2) \<Rightarrow>
                                (let st3 = Py_DECREF new st2 in
                                 case scan_skip b seps (end' + 1) of
                                   Inl e \<Rightarrow> (Inl e, st3)
                                 | Inr skip \<Rightarrow>
                                     (if int (length list1) + 1 > maxsplit
                                      then (case strlen b (int skip) of
                                              Inl e \<Rightarrow> (Inl e, st3)
                                            | Inr n \<Rightarrow>
                                                (case priv_cstring_new A b (int skip) n st3 of
                                                   (Inl e, st4) \<Rightarrow> (Inl e, decref_list list1 st4)
                                                 | (Inr new', st4) \<Rightarrow>
                                                     (case PyList_Append list1 new' st4 of
                                                        (list2, st5) \<Rightarrow>
                                                          (Inr list2, Py_DECREF new' st5))))
                                      else split_chars_loop A b seps maxsplit skip list1 st3)))))
            else (Inr list, st))
      else (Inl Undefined, st))"
  by pat_completeness auto
termination
proof -
  have field: "scan_field b seps e = Inr e' \<Longrightarrow> e \<le> e'" for b seps e e'
  proof (induction b seps e rule: scan_field.induct)
    case (1 b seps e)
    from "1.prems" show ?case
      by (subst (asm) scan_field.simps)
         (auto split: if_splits sum.splits option.splits dest!: "1.IH" [rotated -1])
  qed
  have skip: "scan_skip b seps k = Inr k' \<Longrightarrow> k \<le> k'" for b seps k k'
  proof (induction b seps k rule: scan_skip.induct)
    case (1 b seps k)
    from "1.prems" show ?case
      by (subst (asm) scan_skip.simps)
         (auto split: if_splits sum.splits option.splits dest!: "1.IH" [rotated -1])
  qed
  show ?thesis
    by (relation "measure (\<lambda>(A, b, seps, maxsplit, start, list, st). length b - start)")
       (auto dest!: field skip)
qed

declare split_chars_loop.simps [simp del]

definition priv_cstring_split_on_chars ::
  "allocator \<Rightarrow> addr \<Rightarrow> string \<Rightarrow> int \<Rightarrow> pystate \<Rightarrow> (error + addr list) \<times> pystate" where
  "priv_cstring_split_on_chars A self seps maxsplit st =
     (let maxsplit = (if maxsplit < 0 then PY_SSIZE_T_MAX else maxsplit) in
      case heap st self of
        None \<Rightarrow> (Inl Undefined, st)
      | Some c \<Rightarrow> split_chars_loop A (mem c) seps maxsplit 0 [] st)"

text \<open>
  The loop of \<open>_cstring_split_on_cstring\<close> over the arrays \<open>b\<close> of \<open>self\<close> and \<open>sep\<close> of the
  separator; it returns the offset \<open>s\<close> it stopped at and the list so far. The loop need
  not end: the result is \<open>None\<close> when it does not.
\<close>

partial_function (option) split_cstring_loop ::
  "allocator \<Rightarrow> string \<Rightarrow> string \<Rightarrow> int \<Rightarrow> int \<Rightarrow> addr list \<Rightarrow> pystate
    \<Rightarrow> ((error + int \<times> addr list) \<times> pystate) option" where
  "split_cstring_loop A b sep maxsplit s list st =
     (case strstr b s sep 0 of
        Inl err \<Rightarrow> Some (Inl err, st)
      | Inr None \<Rightarrow> Some (Inr (s, list), st)
      | Inr (Some e) \<Rightarrow>
          (case priv_cstring_new A b s (e - s) st of
             (Inl err, st1) \<Rightarrow> Some (Inl err, decref_list list st1)
           | (Inr new, st1) \<Rightarrow>
               (case PyList_Append list new st1 of
                  (list1, st2) \<Rightarrow>
                    (case strlen sep 0 of
                       Inl err \<Rightarrow> Some (Inl err, Py_DECREF new st2)
                     | Inr n \<Rightarrow>
                         (if int (length list1) + 1 > maxsplit
                          then Some (Inr (e + n, list1), Py_DECREF new st2)
                          else split_cstring_loop A b sep maxsplit (e + n) list1
                                 (Py_DECREF new st2))))))"

declare split_cstring_loop.simps [code]

text \<open>After the loop the remainder from \<open>s\<close> is appended (without a \<open>Py_DECREF\<close>).\<close>

definition priv_cstring_split_on_cstring ::
  "allocator \<Rightarrow> addr \<Rightarrow> pyobj \<Rightarrow> int \<Rightarrow> pystate \<Rightarrow> ((error + addr list) \<times> pystate) option" where
  "priv_cstring_split_on_cstring A self sepobj maxsplit st =
     (case priv_ensure_cstring sepobj of
        Inl e \<Rightarrow> Some (Inl e, st)
      | Inr sa \<Rightarrow>
          (let maxsplit = (if maxsplit < 0 then PY_SSIZE_T_MAX else maxsplit) in
           case (heap st self, heap st sa) of
             (Some c, Some d) \<Rightarrow>
               (case split_cstring_loop A (mem c) (mem d) maxsplit 0 [] st of
                  None \<Rightarrow> None
                | Some (Inl e, st1) \<Rightarrow> Some (Inl e, st1)
                | Some (Inr (s, list), st1) \<Rightarrow>
                    (case strlen (mem c) s of
                       Inl e \<Rightarrow> Some (Inl e, st1)
                     | Inr n \<Rightarrow>
                         (case priv_cstring_new A (mem c) s n st1 of
                            (Inl e, st2) \<Rightarrow> Some (Inl e, decref_list list st2)
                          | (Inr new, st2) \<Rightarrow>
                              (case PyList_Append list new st2 of
                                 (list2, st3) \<Rightarrow> Some (Inr list2, st3)))))
           | _ \<Rightarrow> Some (Inl Undefined, st)))"

text \<open>\<open>cstring_split(self, sep=None, maxsplit=-1)\<close>.\<close>

definition cstring_split ::
  "allocator \<Rightarrow> addr \<Rightarrow> pyobj \<Rightarrow> int \<Rightarrow> pystate \<Rightarrow> ((error + addr list) \<times> pystate) option" where
  "cstring_split A self sepobj maxsplit st =
     (if sepobj = Py_None
      then Some (priv_cstring_split_on_chars A self WHITESPACE_CHARS maxsplit st)
      else priv_cstring_split_on_cstring A self sepobj maxsplit st)"

section \<open>Strip\<close>

text \<open>
  \<open>_strip_chars_from_args\<close>: the optional argument is absent or \<open>None\<close> (the whitespace
  set), a \<open>str\<close> (its UTF-8 array), or of another type, for which the function returns
  the null pointer (\<open>None\<close>).
\<close>

definition priv_strip_chars_from_args :: "pyobj option \<Rightarrow> string option" where
  "priv_strip_chars_from_args args =
     (case args of
        None \<Rightarrow> Some WHITESPACE_CHARS
      | Some Py_None \<Rightarrow> Some WHITESPACE_CHARS
      | Some (PyUnicode u) \<Rightarrow> Some (u @ [NUL])
      | Some _ \<Rightarrow> None)"

text \<open>\<open>while(strchr(chars, *start)) ++start\<close> and \<open>while(strchr(chars, *end)) --end\<close>.\<close>

function strip_start :: "string \<Rightarrow> string \<Rightarrow> nat \<Rightarrow> error + nat" where
  "strip_start chars b start =
     (if start < length b
      then (case strchr chars (b ! start) of
              Inl e \<Rightarrow> Inl e
            | Inr (Some k) \<Rightarrow> strip_start chars b (Suc start)
            | Inr None \<Rightarrow> Inr start)
      else Inl Undefined)"
  by pat_completeness auto
termination
  by (relation "measure (\<lambda>(chars, b, start). length b - start)") auto

declare strip_start.simps [simp del]

function strip_end :: "string \<Rightarrow> string \<Rightarrow> int \<Rightarrow> error + int" where
  "strip_end chars b end' =
     (if 0 \<le> end' \<and> end' < int (length b)
      then (case strchr chars (b ! nat end') of
              Inl e \<Rightarrow> Inl e
            | Inr (Some k) \<Rightarrow> strip_end chars b (end' - 1)
            | Inr None \<Rightarrow> Inr end')
      else Inl Undefined)"
  by pat_completeness auto
termination
  by (relation "measure (\<lambda>(chars, b, end'). nat (end' + 1))") auto

declare strip_end.simps [simp del]

text \<open>
  \<open>cstring_strip\<close>. The result of \<open>_strip_chars_from_args\<close> is used unchecked, so a null
  pointer reaches \<open>strchr\<close>.
\<close>

definition cstring_strip ::
  "allocator \<Rightarrow> addr \<Rightarrow> pyobj option \<Rightarrow> pystate \<Rightarrow> (error + addr) \<times> pystate" where
  "cstring_strip A self args st =
     (case heap st self of
        None \<Rightarrow> (Inl Undefined, st)
      | Some c \<Rightarrow>
          (case priv_strip_chars_from_args args of
             None \<Rightarrow> (Inl Undefined, st)
           | Some chars \<Rightarrow>
               (case strip_start chars (mem c) 0 of
                  Inl e \<Rightarrow> (Inl e, st)
                | Inr start \<Rightarrow>
                    (case strip_end chars (mem c) (Py_SIZE c - 1 - 1) of
                       Inl e \<Rightarrow> (Inl e, st)
                     | Inr end' \<Rightarrow>
                         priv_cstring_new A (mem c) (int start) (end' - int start + 1) st))))"

section \<open>Test states\<close>

text \<open>
  \<open>mk s\<close> is the object \<open>_cstring_new\<close> builds from the bytes \<open>s\<close>, held by one reference;
  \<open>store\<close> places a list of objects at the addresses \<open>0, 1, \<dots>\<close> of a store in which the
  empty singleton does not exist yet.
\<close>

definition mk :: "string \<Rightarrow> cstring" where
  "mk s = \<lparr>ob_refcnt = 1, hash = - 1, val = s @ [NUL], spare = [NUL]\<rparr>"

definition store :: "cstring list \<Rightarrow> pystate" where
  "store cs =
     \<lparr>heap = (\<lambda>a. if a < length cs then Some (cs ! a) else None),
      brk = length cs,
      cstring_EMPTY = None\<rparr>"

text \<open>The bytes of the object at an address, without the last byte of the array.\<close>

definition bytes_at :: "pystate \<Rightarrow> addr \<Rightarrow> string option" where
  "bytes_at st a = map_option (\<lambda>c. butlast (val c)) (heap st a)"

section \<open>Occurrences of a pattern\<close>

text \<open>
  What the specification calls a match: the pattern \<open>n\<close> occurs in the bytes \<open>hay\<close> at
  offset \<open>i\<close>. This definition follows the specification and is what the search functions
  are compared with.
\<close>

definition spec_match_at :: "string \<Rightarrow> string \<Rightarrow> nat \<Rightarrow> bool" where
  "spec_match_at hay n i = (i + length n \<le> length hay \<and> take (length n) (drop i hay) = n)"

text \<open>
  A match that counts for a window: it starts at or after \<open>s\<close> and its end does not exceed
  \<open>e\<close>, where \<open>s\<close> and \<open>e\<close> are the clamped \<open>start\<close> and \<open>end\<close>.
\<close>

definition spec_window_match :: "string \<Rightarrow> string \<Rightarrow> int \<Rightarrow> int \<Rightarrow> nat \<Rightarrow> bool" where
  "spec_window_match hay n s e i =
     (s \<le> int i \<and> int i + int (length n) \<le> e \<and> spec_match_at hay n i)"

section \<open>Split followed by join\<close>

text \<open>
  \<open>sep.join(v.split(sep))\<close> for the objects at \<open>v\<close> and \<open>sa\<close>: the bytes of the object that
  \<open>join\<close> returns for the list that \<open>split\<close> returns, and \<open>None\<close> when one of the two calls
  fails, does not return, or returns the null pointer.
\<close>

definition split_then_join :: "allocator \<Rightarrow> addr \<Rightarrow> addr \<Rightarrow> pystate \<Rightarrow> string option" where
  "split_then_join A v sa st =
     (case cstring_split A v (PyCstring sa) (- 1) st of
        Some (Inr list, st1) \<Rightarrow>
          (case cstring_join A sa (Some (map PyCstring list)) st1 of
             (Inr (Some r), st2) \<Rightarrow> bytes_at st2 r
           | _ \<Rightarrow> None)
      | _ \<Rightarrow> None)"

text \<open>The allocator that grants every request.\<close>

definition grants_all :: allocator where
  "grants_all n = True"

section \<open>Hashing and equality\<close>

text \<open>
  C1. Values that compare equal should hash equal, and every operation that returns a
  value should leave its cache at the sentinel or at the hash of its bytes.
  \<open>cstring_concat\<close> does not: the object it returns keeps the zero that the allocator
  put into the \<open>hash\<close> field, which \<open>cstring_hash\<close> takes for a cached hash. With the
  objects \<open>"a"\<close>, \<open>"b"\<close> and \<open>"ab"\<close> at addresses 0, 1 and 2, the concatenation of the first
  two compares equal to the third; its hash is 0, while the hash of the third is
  \<open>_Py_HashBytes\<close> of its array, whatever that function is.
\<close>

theorem concat_hash_field_not_sentinel:
  "(case cstring_concat (\<lambda>n. True) (PyCstring 0) (PyCstring 1)
           (store [mk ''a'', mk ''b'', mk ''ab'']) of
      (Inr new, st) \<Rightarrow>
        bytes_at st new = Some ''ab'' \<and>
        cstring_richcompare new (PyCstring 2) Py_EQ st = Inr True \<and>
        fst (cstring_hash H new st) = Inr 0 \<and>
        fst (cstring_hash H 2 st) = Inr (H (''ab'' @ [NUL]))
    | _ \<Rightarrow> False)"
  by code_simp

section \<open>Character predicates on the empty value\<close>

text \<open>
  C2. The predicates should be false on the empty value. \<open>cstring_isspace\<close>,
  \<open>cstring_islower\<close> and \<open>cstring_isupper\<close> are; \<open>cstring_isalnum\<close>, \<open>cstring_isalpha\<close>,
  \<open>cstring_isdigit\<close> and \<open>cstring_isprintable\<close> return true, their loop body never
  running.
\<close>

theorem ctype_predicates_on_empty:
  "cstring_isalnum 0 (store [mk []]) = Inr True \<and>
   cstring_isalpha 0 (store [mk []]) = Inr True \<and>
   cstring_isdigit 0 (store [mk []]) = Inr True \<and>
   cstring_isprintable 0 (store [mk []]) = Inr True \<and>
   cstring_isspace 0 (store [mk []]) = Inr False \<and>
   cstring_islower 0 (store [mk []]) = Inr False \<and>
   cstring_isupper 0 (store [mk []]) = Inr False"
  by code_simp

section \<open>Split on whitespace\<close>

text \<open>
  C3. \<open>split\<close> without a separator should drop a leading run of whitespace. The loop
  skips the run that follows a field, not one that precedes the first field:
  \<open>"  a   b  "\<close> gives the three fields \<open>""\<close>, \<open>"a"\<close> and \<open>"b"\<close>.
\<close>

theorem split_default_leading_run:
  "(case cstring_split (\<lambda>n. True) 0 Py_None (- 1) (store [mk ''  a   b  '']) of
      Some (Inr list, st) \<Rightarrow> map (bytes_at st) list = [Some [], Some ''a'', Some ''b'']
    | _ \<Rightarrow> False)"
  by code_simp

text \<open>Without a leading run, and with the last field ending at the terminator:\<close>

lemma split_default_example:
  "(case cstring_split (\<lambda>n. True) 0 Py_None (- 1) (store [mk ''a b'']) of
      Some (Inr list, st) \<Rightarrow> map (bytes_at st) list = [Some ''a'', Some ''b'']
    | _ \<Rightarrow> False)"
  by code_simp

section \<open>Partition from the right\<close>

text \<open>
  C5. \<open>rpartition\<close> should find a match at offset 0. The loop of \<open>_strrstr\<close> runs while
  \<open>p > s\<close> and never compares at \<open>s\<close> itself: for \<open>"ab"\<close> and the pattern \<open>"a"\<close> it reports no
  match, and the result is two references to the empty value and the object itself,
  where \<open>partition\<close> returns \<open>("", "a", "b")\<close>.
\<close>

theorem rpartition_match_at_offset_0:
  "(case cstring_rpartition (\<lambda>n. True) 0 (PyCstring 1) (store [mk ''ab'', mk ''a'']) of
      (Inr (x, y, z), st) \<Rightarrow>
        bytes_at st x = Some [] \<and> bytes_at st y = Some [] \<and> z = 0
    | _ \<Rightarrow> False) \<and>
   (case cstring_partition (\<lambda>n. True) 0 (PyCstring 1) (store [mk ''ab'', mk ''a'']) of
      (Inr (x, y, z), st) \<Rightarrow>
        bytes_at st x = Some [] \<and> bytes_at st y = Some ''a'' \<and> bytes_at st z = Some ''b''
    | _ \<Rightarrow> False)"
  by code_simp

text \<open>A match after offset 0 is found, also by a pattern longer than what follows it:\<close>

lemma rpartition_inner_match_example:
  "(case cstring_rpartition (\<lambda>n. True) 0 (PyCstring 1) (store [mk ''xxabcx'', mk ''abc'']) of
      (Inr (x, y, z), st) \<Rightarrow>
        bytes_at st x = Some ''xx'' \<and> bytes_at st y = Some ''abc'' \<and> bytes_at st z = Some ''x''
    | _ \<Rightarrow> False)"
  by code_simp

section \<open>Strip of a value of strippable bytes\<close>

text \<open>
  C8. \<open>strip\<close> should return the empty value for a value made of strippable bytes only.
  \<open>strchr\<close> finds the terminator in every set, so the scan from the left does not stop at
  the end of \<open>"   "\<close> and reads past the array.
\<close>

theorem strip_all_strippable:
  "fst (cstring_strip (\<lambda>n. True) 0 None (store [mk ''   ''])) = Inl Undefined"
  by code_simp

section \<open>Count\<close>

text \<open>
  C9. \<open>count\<close> should count no occurrence outside the window. The loop tests the cursor
  against \<open>end\<close> only after it has counted a match: in \<open>"abcabc"\<close> with the window from 0
  to 1 it counts the \<open>"bc"\<close> at offset 1, which \<open>find\<close> rejects for the same window.
\<close>

theorem count_match_beyond_window:
  "cstring_count 0 (PyUnicode ''bc'', Some 0, Some 1) (store [mk ''abcabc'']) = Some (Inr 1) \<and>
   cstring_find 0 (PyUnicode ''bc'', Some 0, Some 1) (store [mk ''abcabc'']) = Inr (- 1)"
  by code_simp

text \<open>
  A pattern of length 0 that \<open>strstr\<close> finds at the cursor, before \<open>end\<close>, leaves the
  cursor where it is: the loop of \<open>cstring_count\<close> does not return.
\<close>

lemma count_loop_spin:
  assumes "strstr b p (params_substr params) 0 = Inr (Some p)"
    and "params_substr_len params = 0" and "p < params_end params"
  shows "count_loop b params p r = None"
proof -
  have "\<not> (b' = b \<and> params' = params \<and> p' = p)"
    if h: "count_loop b' params' p' r' = Some y" for b' params' p' r' y
  proof (rule count_loop.raw_induct
      [where P = "\<lambda>b' params' p' r' y. \<not> (b' = b \<and> params' = params \<and> p' = p)", OF _ h])
    fix f :: "string \<Rightarrow> substr_params \<Rightarrow> int \<Rightarrow> int \<Rightarrow> (error + int) option"
      and b' params' p' and r' :: int and y :: "error + int"
    assume ih: "\<And>b' params' p' r' y.
        f b' params' p' r' = Some y \<Longrightarrow> \<not> (b' = b \<and> params' = params \<and> p' = p)"
      and step: "(case strstr b' p' (params_substr params') 0 of Inl e \<Rightarrow> Some (Inl e)
          | Inr None \<Rightarrow> Some (Inr r')
          | Inr (Some q) \<Rightarrow>
              if params_end params' \<le> q + params_substr_len params'
              then Some (Inr (r' + 1))
              else f b' params' (q + params_substr_len params') (r' + 1)) = Some y"
    show "\<not> (b' = b \<and> params' = params \<and> p' = p)"
    proof
      assume eq: "b' = b \<and> params' = params \<and> p' = p"
      with step assms have "f b params p (r' + 1) = Some y" by simp
      from ih [OF this] show False by simp
    qed
  qed
  then have "count_loop b params p r \<noteq> Some y" for y by blast
  then show ?thesis by (cases "count_loop b params p r") blast+
qed

text \<open>
  C10. Every operation should return on every input. \<open>count\<close> with the empty pattern on
  the value \<open>"a"\<close> does not.
\<close>

theorem count_empty_pattern_diverges:
  "cstring_count 0 (PyUnicode [], None, None) (store [mk ''a'']) = None"
proof -
  have "count_loop (''a'' @ [NUL] @ [NUL])
          \<lparr>params_start = 0, params_end = 1, params_substr = [NUL], params_substr_len = 0\<rparr>
          0 0 = None"
    by (rule count_loop_spin) (simp_all add: strstr_def c_str_def NUL_def)
  then show ?thesis
    by (simp add: cstring_count_def priv_parse_substr_args_def priv_obj_as_string_and_size_def
        store_def mk_def mem_def priv_fix_index_def cstring_len_def Py_SIZE_def
        PY_SSIZE_T_MAX_def)
qed

section \<open>In-place append\<close>

lemma poke_last: "i = int (length xs) \<Longrightarrow> poke (xs @ [x]) i c = Inr (xs @ [c])"
  by (simp add: poke_def)

lemma priv_cstring_new_ok:
  assumes "0 \<le> len" "0 \<le> j" "j + len \<le> int (length b)" "A (nat (len + 1))"
  shows "priv_cstring_new A b j len st =
    (Inr (brk st),
     st\<lparr>heap := (heap st)(brk st \<mapsto>
          \<lparr>ob_refcnt = 1, hash = - 1, val = take (nat len) (drop (nat j) b) @ [NUL],
             spare = [NUL]\<rparr>),
        brk := Suc (brk st)\<rparr>)"
proof -
  have al: "CSTRING_ALLOC A (len + 1) st =
      (Inr (brk st),
       st\<lparr>heap := (heap st)(brk st \<mapsto>
            \<lparr>ob_refcnt = 1, hash = 0, val = replicate (nat (len + 1)) NUL, spare = [NUL]\<rparr>),
          brk := Suc (brk st)\<rparr>)"
    using assms by (simp add: CSTRING_ALLOC_def)
  have dr: "drop (nat len) (replicate (nat (len + 1)) NUL) = [NUL]"
    using assms(1) by (subst drop_replicate) (simp add: nat_add_distrib)
  have lt: "length (take (nat len) (drop (nat j) b)) = nat len"
    using assms by simp
  have mc: "memcpy (replicate (nat (len + 1)) NUL) 0 b j len =
      Inr (take (nat len) (drop (nat j) b) @ [NUL])"
    using assms dr by (simp add: memcpy_def)
  show ?thesis
    by (simp add: priv_cstring_new_def al mc poke_last)
qed

lemma concat_in_place_shared:
  assumes "heap st t = Some c" "heap st a = Some d" "1 < ob_refcnt c"
  shows "priv_concat_in_place A (Some (PyCstring t)) (Some (PyCstring a)) st
           = (Inl BadInternalCall, st)"
  using assms
  by (simp add: priv_concat_in_place_def priv_ensure_cstring_def priv_cstring_realloc_def)

lemma concat_in_place_grow:
  assumes target: "heap st t = Some c" and addition: "heap st a = Some d"
    and distinct: "t \<noteq> a" and sizes: "val c \<noteq> []" "val d \<noteq> []"
    and h: "ob_refcnt c = 1 \<and> A (length (val c) + length (val d) - 1)"
  shows "priv_concat_in_place A (Some (PyCstring t)) (Some (PyCstring a)) st
           = (Inr t, st\<lparr>heap := (heap st)(t \<mapsto>
                \<lparr>ob_refcnt = 1, hash = - 1,
                   val = butlast (val c) @ butlast (val d) @ [NUL], spare = []\<rparr>)\<rparr>)"
proof -
  from sizes have lc: "length (val c) \<ge> 1" and ld: "length (val d) \<ge> 1"
    by (simp_all add: Suc_le_eq)
  define grown where "grown = val c @ replicate (length (val d) - 1) NUL"
  have n: "nat (cstring_len c + cstring_len d + 1) = length (val c) + length (val d) - 1"
    using lc ld unfolding cstring_len_def Py_SIZE_def by linarith
  have r: "priv_cstring_realloc A t (cstring_len c + cstring_len d) st =
     (Inr t, st\<lparr>heap := (heap st)(t \<mapsto> c\<lparr>hash := - 1, val := grown, spare := []\<rparr>)\<rparr>)"
  proof -
    have "0 \<le> cstring_len c + cstring_len d + 1"
      using lc ld unfolding cstring_len_def Py_SIZE_def by linarith
    moreover have "length (val c) + length (val d) - 1 - length (val c) = length (val d) - 1"
      using lc ld by linarith
    ultimately show ?thesis
      using target h lc ld by (simp add: priv_cstring_realloc_def n grown_def)
  qed
  have lg: "length grown = length (val c) + length (val d) - 1"
    using lc ld by (simp add: grown_def)
  have "length (drop (length (val c) + length (val d) - 2) grown) = 1"
    using lc ld lg by simp
  then obtain x where x: "drop (length (val c) + length (val d) - 2) grown = [x]"
    by (metis One_nat_def length_0_conv length_Suc_conv)
  have tk: "take (length (val c) - 1) grown = butlast (val c)"
    by (simp add: grown_def butlast_conv_take)
  have mc: "memcpy grown (cstring_len c) (val d) 0 (cstring_len d) =
      Inr (butlast (val c) @ butlast (val d) @ [x])"
  proof -
    have "nat (cstring_len c) = length (val c) - 1" "nat (cstring_len d) = length (val d) - 1"
      "nat (cstring_len c + cstring_len d) = length (val c) + length (val d) - 2"
      "0 \<le> cstring_len c" "0 \<le> cstring_len d"
      "cstring_len c + cstring_len d \<le> int (length grown)"
      "cstring_len d \<le> int (length (val d))"
      using lc ld lg unfolding cstring_len_def Py_SIZE_def by linarith+
    then show ?thesis
      using tk x by (simp add: memcpy_def butlast_conv_take)
  qed
  have pk: "poke (butlast (val c) @ butlast (val d) @ [x])
              (int (length (val c) - Suc 0) + int (length (val d) - Suc 0)) NUL =
      Inr (butlast (val c) @ butlast (val d) @ [NUL])"
    using poke_last [of _ "butlast (val c) @ butlast (val d)" x NUL] by simp
  have c_eq: "c\<lparr>hash := - 1, val := v, spare := []\<rparr>
      = \<lparr>ob_refcnt = 1, hash = - 1, val = v, spare = []\<rparr>" for v
    using h by (cases c) simp
  show ?thesis
    using target addition distinct
    by (simp add: priv_concat_in_place_def priv_ensure_cstring_def r mc pk c_eq)
qed

lemma concat_in_place_absent:
  assumes addition: "heap st a = Some d" and sizes: "val d \<noteq> []"
    and h: "A (length (val d))"
  shows "priv_concat_in_place A None (Some (PyCstring a)) st
           = (Inr (brk st), st\<lparr>heap := (heap st)(brk st \<mapsto>
                \<lparr>ob_refcnt = 1, hash = - 1, val = butlast (val d) @ [NUL],
               spare = [NUL]\<rparr>),
                brk := Suc (brk st)\<rparr>)"
proof -
  from sizes have ld: "length (val d) \<ge> 1" by (simp_all add: Suc_le_eq)
  have n: "nat (Py_SIZE d - 1 + 1) = length (val d)" "0 \<le> Py_SIZE d - 1"
    "0 + (Py_SIZE d - 1) \<le> int (length (val d))" "nat (Py_SIZE d - 1) = length (val d) - 1"
    using ld unfolding Py_SIZE_def by linarith+
  have "priv_cstring_new A (val d) 0 (Py_SIZE d - 1) st =
    (Inr (brk st),
     st\<lparr>heap := (heap st)(brk st \<mapsto>
          \<lparr>ob_refcnt = 1, hash = - 1, val = butlast (val d) @ [NUL],
               spare = [NUL]\<rparr>),
        brk := Suc (brk st)\<rparr>)"
    using priv_cstring_new_ok [of "Py_SIZE d - 1" 0 "val d" A st] n h
    by (simp add: butlast_conv_take)
  with addition
  show ?thesis
    by (simp add: priv_concat_in_place_def priv_ensure_cstring_def priv_cstring_copy_def)
qed

text \<open>
  C4. \<open>_concat_in_place\<close> on a target \<open>t\<close> and an addition \<open>a\<close>, two objects of at least
  one byte each (the terminator), with the addition below the allocation frontier:
  \<^item> a target with more than one reference gives a bad internal call and leaves the store
    as it was;
  \<^item> a target with exactly one reference, when the allocator grants the new size, is
    returned holding its own bytes followed by those of the addition and the terminator,
    with its hash at the sentinel;
  \<^item> with no target, when the allocator grants the size, the result is a new object with
    one reference, the sentinel as hash and the bytes of the addition, at an address
    other than that of the addition.
\<close>

theorem concat_in_place_contract:
  assumes target: "heap st t = Some c" and addition: "heap st a = Some d"
    and distinct: "t \<noteq> a" and sizes: "val c \<noteq> []" "val d \<noteq> []"
    and frontier: "a < brk st"
  shows "(1 < ob_refcnt c \<longrightarrow>
            priv_concat_in_place A (Some (PyCstring t)) (Some (PyCstring a)) st
              = (Inl BadInternalCall, st)) \<and>
         (ob_refcnt c = 1 \<and> A (length (val c) + length (val d) - 1) \<longrightarrow>
            priv_concat_in_place A (Some (PyCstring t)) (Some (PyCstring a)) st
              = (Inr t, st\<lparr>heap := (heap st)(t \<mapsto>
                    \<lparr>ob_refcnt = 1, hash = - 1,
                       val = butlast (val c) @ butlast (val d) @ [NUL], spare = []\<rparr>)\<rparr>)) \<and>
         (A (length (val d)) \<longrightarrow>
            priv_concat_in_place A None (Some (PyCstring a)) st
              = (Inr (brk st), st\<lparr>heap := (heap st)(brk st \<mapsto>
                    \<lparr>ob_refcnt = 1, hash = - 1, val = butlast (val d) @ [NUL],
               spare = [NUL]\<rparr>),
                    brk := Suc (brk st)\<rparr>) \<and> brk st \<noteq> a)"
  using concat_in_place_shared [OF target addition, of A]
    concat_in_place_grow [OF target addition distinct sizes, of A]
    concat_in_place_absent [OF addition sizes(2), of A] frontier
  by auto

theorem concat_in_place_contract_witness:
  "priv_concat_in_place (\<lambda>n. True) (Some (PyCstring 0)) (Some (PyCstring 1))
     (store [(mk ''ab'')\<lparr>ob_refcnt := 2\<rparr>, mk ''cd''])
     = (Inl BadInternalCall, store [(mk ''ab'')\<lparr>ob_refcnt := 2\<rparr>, mk ''cd'']) \<and>
   fst (priv_concat_in_place (\<lambda>n. True) (Some (PyCstring 0)) (Some (PyCstring 1))
     (store [mk ''ab'', mk ''cd''])) = Inr 0 \<and>
   heap (snd (priv_concat_in_place (\<lambda>n. True) (Some (PyCstring 0)) (Some (PyCstring 1))
     (store [mk ''ab'', mk ''cd'']))) 0
     = Some \<lparr>ob_refcnt = 1, hash = - 1, val = ''abcd'' @ [NUL], spare = []\<rparr> \<and>
   fst (priv_concat_in_place (\<lambda>n. True) None (Some (PyCstring 1))
     (store [mk ''ab'', mk ''cd''])) = Inr 2 \<and>
   heap (snd (priv_concat_in_place (\<lambda>n. True) None (Some (PyCstring 1))
     (store [mk ''ab'', mk ''cd'']))) 2
     = Some \<lparr>ob_refcnt = 1, hash = - 1, val = ''cd'' @ [NUL], spare = [NUL]\<rparr>"
  using concat_in_place_contract [of "store [(mk ''ab'')\<lparr>ob_refcnt := 2\<rparr>, mk ''cd'']" 0
      "(mk ''ab'')\<lparr>ob_refcnt := 2\<rparr>" 1 "mk ''cd''" "\<lambda>n. True"]
    concat_in_place_contract [of "store [mk ''ab'', mk ''cd'']" 0 "mk ''ab''" 1 "mk ''cd''"
      "\<lambda>n. True"]
  by (simp add: store_def mk_def)

section \<open>Find and index\<close>

lemma prefix_iff_match:
  assumes "j \<le> length h"
  shows "prefix n (drop j h) \<longleftrightarrow> spec_match_at h n j"
proof
  assume p: "prefix n (drop j h)"
  then have "length n \<le> length (drop j h)" by (rule prefix_length_le)
  moreover from p have "take (length n) (drop j h) = n"
    by (metis append_eq_conv_conj prefix_def)
  ultimately show "spec_match_at h n j"
    using assms by (auto simp: spec_match_at_def)
next
  assume "spec_match_at h n j"
  then show "prefix n (drop j h)"
    by (metis spec_match_at_def take_is_prefix)
qed

lemma strstr_str_Some:
  "strstr_str h n = Some k \<Longrightarrow>
     spec_match_at h n k \<and> (\<forall>j<k. \<not> spec_match_at h n j)"
proof (induction h arbitrary: k)
  case Nil
  then show ?case by (auto simp: spec_match_at_def split: if_splits)
next
  case (Cons c cs)
  show ?case
  proof (cases "prefix n (c # cs)")
    case True
    with Cons.prems have "k = 0" by simp
    with True show ?thesis using prefix_iff_match [where j = 0 and h = "c # cs" and n = n] by simp
  next
    case False
    with Cons.prems obtain k' where k': "strstr_str cs n = Some k'" "k = Suc k'" by auto
    from Cons.IH [OF k'(1)] have ih: "spec_match_at cs n k'" "\<forall>j<k'. \<not> spec_match_at cs n j"
      by simp_all
    have shift: "spec_match_at (c # cs) n (Suc j) = spec_match_at cs n j" for j
      by (simp add: spec_match_at_def)
    have zero: "\<not> spec_match_at (c # cs) n 0"
      using False prefix_iff_match [where j = 0 and h = "c # cs" and n = n] by simp
    show ?thesis
    proof (intro conjI allI impI)
      show "spec_match_at (c # cs) n k" using ih(1) k'(2) shift by simp
    next
      fix j assume "j < k"
      then show "\<not> spec_match_at (c # cs) n j"
        using ih(2) k'(2) shift zero by (cases j) auto
    qed
  qed
qed

lemma strstr_str_None:
  "strstr_str h n = None \<Longrightarrow> \<not> spec_match_at h n j"
proof (induction h arbitrary: j)
  case Nil
  then show ?case by (auto simp: spec_match_at_def split: if_splits)
next
  case (Cons c cs)
  from Cons.prems have np: "\<not> prefix n (c # cs)" and r: "strstr_str cs n = None"
    by (auto split: if_splits)
  have shift: "spec_match_at (c # cs) n (Suc j) = spec_match_at cs n j" for j
    by (simp add: spec_match_at_def)
  show ?case
  proof (cases j)
    case 0
    then show ?thesis using np prefix_iff_match [where j = 0 and h = "c # cs" and n = n] by simp
  next
    case (Suc j')
    then show ?thesis using Cons.IH [OF r] shift by simp
  qed
qed

lemma c_str_terminated:
  assumes "NUL \<notin> set hay" "0 \<le> i" "i \<le> int (length hay)"
  shows "c_str (hay @ NUL # t) i = Inr (drop (nat i) hay)"
proof -
  have "\<And>x. x \<in> set (drop (nat i) hay) \<Longrightarrow> x \<noteq> NUL"
    using assms(1) by (metis in_set_dropD)
  then have "takeWhile (\<lambda>c. c \<noteq> NUL) (drop (nat i) hay @ NUL # t) = drop (nat i) hay"
    by simp
  then show ?thesis using assms by (simp add: c_str_def)
qed

lemma match_drop: "spec_match_at (drop s hay) n k = spec_match_at hay n (s + k)" if "s \<le> length hay"
  using that by (auto simp: spec_match_at_def add.commute)

lemma find_index_window_cases:
  fixes so eo :: "int option"
  assumes self: "heap st self = Some c" and bytes: "val c = hay @ [NUL]" "NUL \<notin> set hay"
    and pat: "priv_obj_as_string_and_size pat st = Inr (n @ NUL # after, int (length n))"
      "NUL \<notin> set n"
    and s: "s = priv_fix_index (case so of None \<Rightarrow> 0 | Some x \<Rightarrow> x) (int (length hay))"
    and e: "e = priv_fix_index (case eo of None \<Rightarrow> PY_SSIZE_T_MAX | Some x \<Rightarrow> x)
                  (int (length hay))"
  shows "(spec_window_match hay n s e i \<and> (\<forall>j<i. \<not> spec_window_match hay n s e j) \<longrightarrow>
            cstring_find self (pat, so, eo) st = Inr (int i) \<and>
            cstring_index self (pat, so, eo) st = Inr (int i)) \<and>
         ((\<forall>j. \<not> spec_window_match hay n s e j) \<longrightarrow>
            cstring_find self (pat, so, eo) st = Inr (- 1) \<and>
            cstring_index self (pat, so, eo) st = Inl ValueError)"
proof -
  let ?b = "hay @ NUL # spare c"
  let ?params = "\<lparr>params_start = s, params_end = e, params_substr = n @ NUL # after,
                   params_substr_len = int (length n)\<rparr>"
  have len: "cstring_len c = int (length hay)"
    using bytes by (simp add: cstring_len_def Py_SIZE_def)
  have parse: "priv_parse_substr_args self (pat, so, eo) st = Inr ?params"
    using self pat s e len by (simp add: priv_parse_substr_args_def)
  have s_rng: "0 \<le> s" "s \<le> int (length hay)"
    unfolding s by (simp_all add: priv_fix_index_def Let_def)
  have hs: "c_str ?b s = Inr (drop (nat s) hay)"
    using bytes s_rng by (simp add: c_str_terminated)
  have ns: "c_str (n @ NUL # after) 0 = Inr n"
    using pat(2) c_str_terminated [of n 0] by simp
  have str: "strstr ?b s (n @ NUL # after) 0 =
      Inr (map_option (\<lambda>k. s + int k) (strstr_str (drop (nat s) hay) n))"
    by (simp add: strstr_def hs ns)
  have find: "cstring_find self (pat, so, eo) st =
      (case priv_substr_params_str ?b ?params of
         Inl err \<Rightarrow> Inl err | Inr None \<Rightarrow> Inr (- 1) | Inr (Some p) \<Rightarrow> Inr (p - 0))"
    using self bytes by (simp add: cstring_find_def parse mem_def)
  have index: "cstring_index self (pat, so, eo) st =
      (case priv_substr_params_str ?b ?params of
         Inl err \<Rightarrow> Inl err | Inr None \<Rightarrow> Inl ValueError | Inr (Some p) \<Rightarrow> Inr (p - 0))"
    using self bytes by (simp add: cstring_index_def parse mem_def)
  have shift: "spec_match_at (drop (nat s) hay) n k = spec_match_at hay n (nat s + k)" for k
    using s_rng by (intro match_drop) linarith
  show ?thesis
  proof (cases "strstr_str (drop (nat s) hay) n")
    case None
    have no: "\<not> spec_window_match hay n s e j" for j
    proof
      assume w: "spec_window_match hay n s e j"
      then have "nat s \<le> j" unfolding spec_window_match_def by linarith
      then obtain k where "j = nat s + k" using le_Suc_ex by blast
      with w shift [of k] strstr_str_None [OF None, of k] show False
        by (simp add: spec_window_match_def)
    qed
    have "priv_substr_params_str ?b ?params = Inr None"
      by (simp add: priv_substr_params_str_def str None)
    with no show ?thesis by (simp add: find index)
  next
    case (Some k)
    from strstr_str_Some [OF Some] shift
    have first: "spec_match_at hay n (nat s + k)" "\<forall>j<k. \<not> spec_match_at hay n (nat s + j)"
      by simp_all
    have least: "nat s + k \<le> j" if "spec_window_match hay n s e j" for j
    proof (rule ccontr)
      assume "\<not> nat s + k \<le> j"
      moreover from that have "nat s \<le> j" unfolding spec_window_match_def by linarith
      ultimately obtain k' where "j = nat s + k'" "k' < k"
        by (metis add_diff_inverse_nat nat_add_left_cancel_less not_le)
      with first(2) that show False by (simp add: spec_window_match_def)
    qed
    show ?thesis
    proof (cases "s + int k + int (length n) > e")
      case True
      have no: "\<not> spec_window_match hay n s e j" for j
      proof
        assume w: "spec_window_match hay n s e j"
        from least [OF w] have "s + int k \<le> int j" using s_rng by linarith
        with w True show False by (simp add: spec_window_match_def)
      qed
      have "priv_substr_params_str ?b ?params = Inr None"
        using True by (simp add: priv_substr_params_str_def str Some)
      with no show ?thesis by (simp add: find index)
    next
      case False
      have w: "spec_window_match hay n s e (nat s + k)"
        using False first(1) s_rng by (simp add: spec_window_match_def)
      have r: "priv_substr_params_str ?b ?params = Inr (Some (s + int k))"
        using False by (simp add: priv_substr_params_str_def str Some)
      have "i = nat s + k"
        if "spec_window_match hay n s e i" "\<forall>j<i. \<not> spec_window_match hay n s e j"
        using that least [OF that(1)] w by (metis le_neq_implies_less)
      moreover have "int (nat s + k) = s + int k" using s_rng by simp
      ultimately show ?thesis using w by (auto simp: find index r)
    qed
  qed
qed

lemma find_index_dual:
  "cstring_index self args st =
     (case cstring_find self args st of
        Inl err \<Rightarrow> Inl err
      | Inr r \<Rightarrow> if r = - 1 then Inl ValueError else Inr r)"
proof -
  have nonneg: "0 \<le> p" if "strstr b i n 0 = Inr (Some p)" for b i n p
    using that by (auto simp: strstr_def c_str_def split: if_splits sum.splits)
  show ?thesis
    by (auto simp: cstring_index_def cstring_find_def priv_substr_params_str_def
        split: sum.splits option.splits if_splits dest: nonneg)
qed

text \<open>
  C6. For a value with bytes \<open>hay\<close> and a pattern with bytes \<open>n\<close>, neither holding a zero
  byte, the pattern being followed by a zero byte in the memory that
  \<open>_obj_as_string_and_size\<close> points to (as it is for a \<open>str\<close>, a \<open>cstring\<close>, a \<open>bytes\<close> and a
  \<open>bytearray\<close>), and the window from \<open>s\<close> to \<open>e\<close> that \<open>_fix_index\<close> makes of the optional
  \<open>start\<close> and \<open>end\<close>: when \<open>i\<close> is the first match of the window, \<open>find\<close> and \<open>index\<close> both
  return \<open>i\<close>; when the window has no match, \<open>find\<close> returns -1 and \<open>index\<close> raises a value
  error. On every input whatever, \<open>index\<close> raises the value error exactly when \<open>find\<close>
  returns -1 and returns the offset of \<open>find\<close> otherwise.
\<close>

theorem find_index_first_match_in_window:
  fixes so eo :: "int option"
  assumes "heap st self = Some c" and "val c = hay @ [NUL]" and "NUL \<notin> set hay"
    and "priv_obj_as_string_and_size pat st = Inr (n @ NUL # after, int (length n))"
    and "NUL \<notin> set n"
    and "s = priv_fix_index (case so of None \<Rightarrow> 0 | Some x \<Rightarrow> x) (int (length hay))"
    and "e = priv_fix_index (case eo of None \<Rightarrow> PY_SSIZE_T_MAX | Some x \<Rightarrow> x)
                  (int (length hay))"
  shows "(spec_window_match hay n s e i \<and> (\<forall>j<i. \<not> spec_window_match hay n s e j) \<longrightarrow>
            cstring_find self (pat, so, eo) st = Inr (int i) \<and>
            cstring_index self (pat, so, eo) st = Inr (int i)) \<and>
         ((\<forall>j. \<not> spec_window_match hay n s e j) \<longrightarrow>
            cstring_find self (pat, so, eo) st = Inr (- 1) \<and>
            cstring_index self (pat, so, eo) st = Inl ValueError) \<and>
         (\<forall>self' args st'.
            cstring_index self' args st' =
              (case cstring_find self' args st' of
                 Inl err \<Rightarrow> Inl err
               | Inr r \<Rightarrow> if r = - 1 then Inl ValueError else Inr r))"
  using find_index_window_cases [OF assms, of i] find_index_dual by blast

lemma match_bytes: "spec_match_at hay n i \<Longrightarrow> set n \<subseteq> set hay"
  by (metis spec_match_at_def set_drop_subset set_take_subset subset_trans)

theorem find_index_first_match_in_window_witness:
  "cstring_find 0 (PyUnicode ''bc'', None, None) (store [mk ''abcabc'']) = Inr 1 \<and>
   cstring_index 0 (PyUnicode ''bc'', None, None) (store [mk ''abcabc'']) = Inr 1 \<and>
   cstring_find 0 (PyUnicode ''q'', None, None) (store [mk ''xyz'']) = Inr (- 1) \<and>
   cstring_index 0 (PyUnicode ''q'', None, None) (store [mk ''xyz'']) = Inl ValueError"
proof -
  have no: "\<not> spec_window_match ''xyz'' ''q'' s e j" for s e j
    using match_bytes [of "''xyz''" "''q''" j] by (auto simp: spec_window_match_def)
  have w: "spec_window_match ''abcabc'' ''bc'' 0 6 1"
    by (simp add: spec_window_match_def spec_match_at_def)
  have nw: "\<not> spec_window_match ''abcabc'' ''bc'' 0 6 0"
    by (simp add: spec_window_match_def spec_match_at_def)
  have fi: "priv_fix_index 0 6 = 0" "priv_fix_index PY_SSIZE_T_MAX 6 = 6"
    "priv_fix_index 0 3 = 0" "priv_fix_index PY_SSIZE_T_MAX 3 = 3"
    by (simp_all add: priv_fix_index_def PY_SSIZE_T_MAX_def)
  have a: "spec_window_match ''abcabc'' ''bc'' 0 6 1 \<and>
        (\<forall>j<1. \<not> spec_window_match ''abcabc'' ''bc'' 0 6 j) \<longrightarrow>
        cstring_find 0 (PyUnicode ''bc'', None, None) (store [mk ''abcabc'']) = Inr (int 1) \<and>
        cstring_index 0 (PyUnicode ''bc'', None, None) (store [mk ''abcabc'']) = Inr (int 1)"
    by (rule find_index_first_match_in_window
          [where c = "mk ''abcabc''" and hay = "''abcabc''" and n = "''bc''", THEN conjunct1])
       (simp_all add: store_def mk_def priv_obj_as_string_and_size_def NUL_def fi)
  have b: "(\<forall>j. \<not> spec_window_match ''xyz'' ''q'' 0 3 j) \<longrightarrow>
        cstring_find 0 (PyUnicode ''q'', None, None) (store [mk ''xyz'']) = Inr (- 1) \<and>
        cstring_index 0 (PyUnicode ''q'', None, None) (store [mk ''xyz'']) = Inl ValueError"
    by (rule find_index_first_match_in_window
          [where c = "mk ''xyz''" and hay = "''xyz''" and n = "''q''", THEN conjunct2, THEN conjunct1])
       (simp_all add: store_def mk_def priv_obj_as_string_and_size_def NUL_def fi)
  from a w nw b no show ?thesis by simp
qed

text \<open>
  The claim as the specification has it, for every value, fails on a value with a zero
  byte inside: in \<open>"a\0b"\<close> the pattern \<open>"b"\<close> occurs at offset 2, inside the default window,
  and \<open>strstr\<close> stops at the zero byte before it.
\<close>

theorem find_embedded_zero_counterexample:
  "spec_window_match (''a'' @ [NUL] @ ''b'') ''b''
     (priv_fix_index 0 3) (priv_fix_index PY_SSIZE_T_MAX 3) 2 \<and>
   cstring_find 0 (PyUnicode ''b'', None, None) (store [mk (''a'' @ [NUL] @ ''b'')]) = Inr (- 1) \<and>
   cstring_index 0 (PyUnicode ''b'', None, None) (store [mk (''a'' @ [NUL] @ ''b'')])
     = Inl ValueError"
  by (simp add: spec_window_match_def spec_match_at_def priv_fix_index_def PY_SSIZE_T_MAX_def
      cstring_find_def cstring_index_def priv_parse_substr_args_def
      priv_obj_as_string_and_size_def priv_substr_params_str_def strstr_def c_str_def
      store_def mk_def mem_def cstring_len_def Py_SIZE_def NUL_def)

text \<open>
  The pattern handed to \<open>strstr\<close> is not cut at \<open>view.len\<close>. The first two bytes of the
  buffer \<open>"abcd"\<close> are a pattern \<open>"ab"\<close> of length 2, which occurs in the value \<open>"ab"\<close> at
  offset 0, and the search is for \<open>"abcd"\<close>; the first two bytes of a buffer \<open>"ab"\<close> followed
  by a zero byte are found.
\<close>

lemma find_buffer_pattern_examples:
  "cstring_find 0 (PyBuffer (''abcd'' @ [NUL]) 2, None, None) (store [mk ''ab'']) = Inr (- 1) \<and>
   cstring_index 0 (PyBuffer (''abcd'' @ [NUL]) 2, None, None) (store [mk ''ab''])
     = Inl ValueError \<and>
   cstring_find 0 (PyBuffer (''ab'' @ [NUL]) 2, None, None) (store [mk ''ab'']) = Inr 0"
  by (simp add: priv_fix_index_def PY_SSIZE_T_MAX_def
      cstring_find_def cstring_index_def priv_parse_substr_args_def
      priv_obj_as_string_and_size_def priv_substr_params_str_def strstr_def c_str_def
      store_def mk_def mem_def cstring_len_def Py_SIZE_def NUL_def)

section \<open>Split with a separator, then join\<close>

lemma incref_decref:
  assumes "heap st a = Some ob" "ob_refcnt ob \<noteq> 0"
  shows "Py_DECREF a (Py_INCREF a st) = st"
proof -
  have "(heap st)(a \<mapsto> ob) = heap st" using assms(1) by auto
  then show ?thesis using assms by (simp add: Py_DECREF_def Py_INCREF_def)
qed


lemma strlen_terminated:
  assumes "NUL \<notin> set hay" "s \<le> length hay"
  shows "strlen (hay @ NUL # t) (int s) = Inr (int (length hay - s))"
  using assms c_str_terminated [of hay "int s" t] by (simp add: strlen_def)

lemma strstr_terminated:
  assumes "NUL \<notin> set hay" "NUL \<notin> set sp" "s \<le> length hay"
  shows "strstr (hay @ NUL # t) (int s) (sp @ NUL # u) 0 =
           Inr (map_option (\<lambda>k. int s + int k) (strstr_str (drop s hay) sp))"
  using assms c_str_terminated [of hay "int s" t] c_str_terminated [of sp 0 u]
  by (simp add: strstr_def)

lemma split_cstring_loop_spec:
  fixes hay sp :: string
  assumes A: "\<And>k. A k" and hay: "NUL \<notin> set hay" and sp: "NUL \<notin> set sp" "sp \<noteq> []"
    and s: "s \<le> length hay" and m: "int (length list) + int (length hay - s) < m"
  shows "\<exists>fs s' st'.
      split_cstring_loop A (hay @ NUL # t) (sp @ NUL # u) m (int s) list st
        = Some (Inr (int s', list @ [brk st ..< brk st + length fs]), st') \<and>
      brk st' = brk st + length fs \<and>
      (\<forall>a < brk st. heap st' a = heap st a) \<and>
      (\<forall>i < length fs. heap st' (brk st + i)
          = Some \<lparr>ob_refcnt = 1, hash = - 1, val = fs ! i @ [NUL], spare = [NUL]\<rparr>) \<and>
      concat (map (\<lambda>f. f @ sp) fs) @ drop s' hay = drop s hay \<and> s' \<le> length hay"
  using s m
proof (induction "length hay - s" arbitrary: s list st rule: less_induct)
  case less
  note str = strstr_terminated [OF hay sp(1) less.prems(1)]
  show ?case
  proof (cases "strstr_str (drop s hay) sp")
    case None
    have "split_cstring_loop A (hay @ NUL # t) (sp @ NUL # u) m (int s) list st
        = Some (Inr (int s, list), st)"
      by (subst split_cstring_loop.simps) (simp add: str None)
    then show ?thesis
      using less.prems(1) by (intro exI [of _ "[]"] exI [of _ s] exI [of _ st]) simp
  next
    case (Some k)
    from strstr_str_Some [OF Some] have mt: "spec_match_at (drop s hay) sp k" by simp
    then have fit: "s + k + length sp \<le> length hay"
      and at: "take (length sp) (drop (s + k) hay) = sp"
      using less.prems(1) by (auto simp: spec_match_at_def add.commute)
    define f0 where "f0 = take k (drop s hay)"
    define s2 where "s2 = s + k + length sp"
    define stN where "stN = st\<lparr>heap := (heap st)(brk st \<mapsto>
          \<lparr>ob_refcnt = 1, hash = - 1, val = f0 @ [NUL], spare = [NUL]\<rparr>), brk := Suc (brk st)\<rparr>"
    have tk: "take k (drop s (hay @ NUL # t)) = f0"
      using fit by (simp add: f0_def)
    have new: "priv_cstring_new A (hay @ NUL # t) (int s) (int k) st
        = (Inr (brk st), stN)"
      using priv_cstring_new_ok [of "int k" "int s" "hay @ NUL # t" A st] A fit tk
      by (simp add: stN_def)
    have rc: "Py_DECREF (brk st) (Py_INCREF (brk st) stN) = stN"
      by (rule incref_decref [of _ _ "\<lparr>ob_refcnt = 1, hash = - 1, val = f0 @ [NUL], spare = [NUL]\<rparr>"])
         (simp_all add: stN_def)
    have sl: "strlen (sp @ NUL # u) 0 = Inr (int (length sp))"
      using strlen_terminated [OF sp(1), of 0 u] by simp
    have lsp: "1 \<le> length sp" using sp(2) by (simp add: Suc_le_eq)
    have nobreak: "\<not> int (length (list @ [brk st])) + 1 > m"
      using less.prems(2) fit lsp by simp
    have step: "split_cstring_loop A (hay @ NUL # t) (sp @ NUL # u) m (int s) list st
        = split_cstring_loop A (hay @ NUL # t) (sp @ NUL # u) m (int s2) (list @ [brk st]) stN"
      using nobreak
      by (subst split_cstring_loop.simps)
         (simp add: str Some new PyList_Append_def sl rc s2_def add.assoc)
    have "length hay - s2 < length hay - s" using fit lsp by (simp add: s2_def)
    moreover have "s2 \<le> length hay" using fit by (simp add: s2_def)
    moreover have "int (length (list @ [brk st])) + int (length hay - s2) < m"
      using less.prems(2) fit lsp by (simp add: s2_def)
    ultimately obtain fs' s' st' where
      r: "split_cstring_loop A (hay @ NUL # t) (sp @ NUL # u) m (int s2) (list @ [brk st]) stN
            = Some (Inr (int s', (list @ [brk st]) @ [brk stN ..< brk stN + length fs']), st')"
      and b: "brk st' = brk stN + length fs'"
      and old: "\<forall>a < brk stN. heap st' a = heap stN a"
      and objs: "\<forall>i < length fs'. heap st' (brk stN + i)
          = Some \<lparr>ob_refcnt = 1, hash = - 1, val = fs' ! i @ [NUL], spare = [NUL]\<rparr>"
      and cat: "concat (map (\<lambda>f. f @ sp) fs') @ drop s' hay = drop s2 hay"
      and le: "s' \<le> length hay"
      using less.hyps [of s2 "list @ [brk st]" stN] by blast
    have bN: "brk stN = Suc (brk st)" by (simp add: stN_def)
    have lists: "(list @ [brk st]) @ [brk stN ..< brk stN + length fs']
        = list @ [brk st ..< brk st + length (f0 # fs')]"
    proof -
      have "[brk st ..< brk st + Suc (length fs')]
          = brk st # [Suc (brk st) ..< Suc (brk st) + length fs']"
        by (subst upt_conv_Cons) simp_all
      then show ?thesis by (simp add: bN del: upt_Suc)
    qed
    have "drop s hay = f0 @ drop (s + k) hay"
      by (simp add: f0_def add.commute) (metis append_take_drop_id drop_drop add.commute)
    moreover have "drop (s + k) hay = sp @ drop s2 hay"
      using at by (metis append_take_drop_id drop_drop add.commute s2_def)
    ultimately have cat': "concat (map (\<lambda>f. f @ sp) (f0 # fs')) @ drop s' hay = drop s hay"
      using cat by simp
    have old': "\<forall>a < brk st. heap st' a = heap st a"
      using old by (simp add: stN_def)
    have objs': "\<forall>i < length (f0 # fs'). heap st' (brk st + i)
          = Some \<lparr>ob_refcnt = 1, hash = - 1, val = (f0 # fs') ! i @ [NUL],
                 spare = [NUL]\<rparr>"
    proof (intro allI impI)
      fix i assume "i < length (f0 # fs')"
      then show "heap st' (brk st + i)
          = Some \<lparr>ob_refcnt = 1, hash = - 1, val = (f0 # fs') ! i @ [NUL],
                 spare = [NUL]\<rparr>"
        using old objs by (cases i) (simp_all add: stN_def)
    qed
    show ?thesis
      using step r lists b bN old' objs' cat' le
      by (intro exI [of _ "f0 # fs'"] exI [of _ s'] exI [of _ st']) simp
  qed
qed

lemma join_loop_acc:
  assumes A: "\<And>k. A k"
    and sep: "heap st sa = Some d" "val d = sp @ [NUL]"
    and acc: "heap st r = Some \<lparr>ob_refcnt = 1, hash = h, val = acc @ [NUL], spare = z\<rparr>"
      "r \<noteq> sa" "r \<notin> set L"
    and items: "\<forall>a\<in>set L. a \<noteq> sa \<and>
        (\<exists>ob. heap st a = Some ob \<and> val ob = content a @ [NUL] \<and> ob_refcnt ob \<noteq> 0)"
  shows "\<exists>st' h' z'. join_loop A sa (map PyCstring L) (Some r) st = (Inr (Some r), st') \<and>
           heap st' r = Some \<lparr>ob_refcnt = 1, hash = h',
             val = (acc @ concat (map (\<lambda>a. sp @ content a) L)) @ [NUL], spare = z'\<rparr>"
  using sep(1) acc items
proof (induction L arbitrary: st acc h z)
  case Nil
  then show ?case by simp
next
  case (Cons item rest)
  from Cons.prems(5) obtain ob where ob: "heap st item = Some ob"
    "val ob = content item @ [NUL]" "ob_refcnt ob \<noteq> 0" and isa: "item \<noteq> sa"
    by auto
  from Cons.prems(4) have ri: "r \<noteq> item" and rr: "r \<notin> set rest" by auto
  define ob1 where "ob1 = ob\<lparr>ob_refcnt := ob_refcnt ob + 1\<rparr>"
  define st1 where "st1 = st\<lparr>heap := (heap st)(item \<mapsto> ob1)\<rparr>"
  have inc: "incref_obj (PyCstring item) st = st1"
    using ob by (simp add: incref_obj_def Py_INCREF_def st1_def ob1_def)
  define st2 where "st2 = st1\<lparr>heap := (heap st1)(r \<mapsto>
      \<lparr>ob_refcnt = 1, hash = - 1, val = acc @ sp @ [NUL], spare = []\<rparr>)\<rparr>"
  have c1: "priv_concat_in_place A (Some (PyCstring r)) (Some (PyCstring sa)) st1 = (Inr r, st2)"
    using concat_in_place_grow
        [of st1 r "\<lparr>ob_refcnt = 1, hash = h, val = acc @ [NUL], spare = z\<rparr>" sa d A]
      Cons.prems(1,2,3) A ri isa sep(2)
    by (simp add: st1_def st2_def)
  define st3 where "st3 = st2\<lparr>heap := (heap st2)(r \<mapsto>
      \<lparr>ob_refcnt = 1, hash = - 1, val = (acc @ sp) @ content item @ [NUL], spare = []\<rparr>)\<rparr>"
  have c2: "priv_concat_in_place A (Some (PyCstring r)) (Some (PyCstring item)) st2 = (Inr r, st3)"
    using concat_in_place_grow
        [of st2 r "\<lparr>ob_refcnt = 1, hash = - 1, val = acc @ sp @ [NUL], spare = []\<rparr>"
        item ob1 A] A ri ob(2)
    by (simp add: st1_def st2_def st3_def ob1_def butlast_append)
  define st4 where "st4 = st3\<lparr>heap := (heap st3)(item \<mapsto> ob)\<rparr>"
  have dec: "decref_obj (PyCstring item) st3 = st4"
    using ri ob(3) by (simp add: decref_obj_def Py_DECREF_def st4_def st3_def st2_def st1_def ob1_def)
  have unfold: "join_loop A sa (map PyCstring (item # rest)) (Some r) st
      = join_loop A sa (map PyCstring rest) (Some r) st4"
    by (simp add: inc c1 c2 dec)
  have h4: "heap st4 x = (if x = item then Some ob else if x = r
      then Some \<lparr>ob_refcnt = 1, hash = - 1, val = (acc @ sp @ content item) @ [NUL],
        spare = []\<rparr>
      else heap st x)" for x
    by (simp add: st4_def st3_def st2_def st1_def)
  have sep4: "heap st4 sa = Some d" using Cons.prems(1,3) isa by (simp add: h4)
  have acc4: "heap st4 r = Some \<lparr>ob_refcnt = 1, hash = - 1,
      val = (acc @ sp @ content item) @ [NUL], spare = []\<rparr>"
    using ri by (simp add: h4)
  have items4: "\<forall>a\<in>set rest. a \<noteq> sa \<and>
        (\<exists>ob. heap st4 a = Some ob \<and> val ob = content a @ [NUL] \<and> ob_refcnt ob \<noteq> 0)"
    using Cons.prems(5) rr ob by (auto simp: h4)
  from Cons.IH [OF sep4 acc4 Cons.prems(3) rr items4]
  obtain st' h' z' where "join_loop A sa (map PyCstring rest) (Some r) st4 = (Inr (Some r), st')"
    "heap st' r = Some \<lparr>ob_refcnt = 1, hash = h',
       val = ((acc @ sp @ content item) @ concat (map (\<lambda>a. sp @ content a) rest)) @ [NUL],
       spare = z'\<rparr>"
    by blast
  then show ?case unfolding unfold by (intro exI [of _ st'] exI [of _ h'] exI [of _ z']) simp
qed

lemma join_loop_from_null:
  assumes A: "\<And>k. A k"
    and sep: "heap st sa = Some d" "val d = sp @ [NUL]" "sa < brk st"
    and items: "\<forall>a\<in>set (a0 # rest). a \<noteq> sa \<and> a < brk st \<and>
        (\<exists>ob. heap st a = Some ob \<and> val ob = content a @ [NUL] \<and> ob_refcnt ob \<noteq> 0)"
  shows "\<exists>st' h' z'. join_loop A sa (map PyCstring (a0 # rest)) None st
             = (Inr (Some (brk st)), st') \<and>
           heap st' (brk st) = Some \<lparr>ob_refcnt = 1, hash = h',
             val = (content a0 @ concat (map (\<lambda>a. sp @ content a) rest)) @ [NUL],
             spare = z'\<rparr>"
proof -
  from items obtain ob where ob: "heap st a0 = Some ob"
    "val ob = content a0 @ [NUL]" "ob_refcnt ob \<noteq> 0" and a0: "a0 \<noteq> sa" "a0 < brk st"
    by auto
  define ob1 where "ob1 = ob\<lparr>ob_refcnt := ob_refcnt ob + 1\<rparr>"
  define st1 where "st1 = st\<lparr>heap := (heap st)(a0 \<mapsto> ob1)\<rparr>"
  have inc: "incref_obj (PyCstring a0) st = st1"
    using ob by (simp add: incref_obj_def Py_INCREF_def st1_def ob1_def)
  define st2 where "st2 = st1\<lparr>heap := (heap st1)(brk st \<mapsto>
      \<lparr>ob_refcnt = 1, hash = - 1, val = content a0 @ [NUL], spare = [NUL]\<rparr>),
      brk := Suc (brk st)\<rparr>"
  have c: "priv_concat_in_place A None (Some (PyCstring a0)) st1 = (Inr (brk st), st2)"
    using concat_in_place_absent [of st1 a0 ob1 A] A ob(2)
    by (simp add: st1_def st2_def ob1_def)
  define st3 where "st3 = st2\<lparr>heap := (heap st2)(a0 \<mapsto> ob)\<rparr>"
  have dec: "decref_obj (PyCstring a0) st2 = st3"
    using a0 ob(3) by (simp add: decref_obj_def Py_DECREF_def st3_def st2_def st1_def ob1_def)
  have unfold: "join_loop A sa (map PyCstring (a0 # rest)) None st
      = join_loop A sa (map PyCstring rest) (Some (brk st)) st3"
    by (simp add: inc c dec)
  have h3: "heap st3 x = (if x = a0 then Some ob else if x = brk st
      then Some \<lparr>ob_refcnt = 1, hash = - 1, val = content a0 @ [NUL], spare = [NUL]\<rparr>
      else heap st x)" for x
    by (simp add: st3_def st2_def st1_def)
  have sep3: "heap st3 sa = Some d" using sep a0 by (simp add: h3)
  have acc3: "heap st3 (brk st)
      = Some \<lparr>ob_refcnt = 1, hash = - 1, val = content a0 @ [NUL], spare = [NUL]\<rparr>"
    using a0 by (simp add: h3)
  have r: "brk st \<noteq> sa" "brk st \<notin> set rest" using sep(3) items by auto
  have items3: "\<forall>a\<in>set rest. a \<noteq> sa \<and>
        (\<exists>ob. heap st3 a = Some ob \<and> val ob = content a @ [NUL] \<and> ob_refcnt ob \<noteq> 0)"
    using items ob by (auto simp: h3)
  from join_loop_acc [of A st3 sa d sp "brk st" "- 1" "content a0" "[NUL]" rest content,
      OF A sep3 sep(2) acc3 r items3]
  show ?thesis unfolding unfold by simp
qed

lemma intercalate_shift:
  "concat (map (\<lambda>f. f @ sp) fs) @ l
     = hd (fs @ [l]) @ concat (map (\<lambda>f. sp @ f) (tl (fs @ [l])))"
proof (induction fs)
  case Nil
  show ?case by simp
next
  case (Cons f fs)
  then show ?case by (cases fs) simp_all
qed

lemma cstring_split_spec:
  fixes hay sp :: string
  assumes A: "\<And>k. A k"
    and self: "heap st v = Some c" "val c = hay @ [NUL]" "NUL \<notin> set hay"
    and sep: "heap st sa = Some d" "val d = sp @ [NUL]" "NUL \<notin> set sp" "sp \<noteq> []"
    and size: "int (length hay) < PY_SSIZE_T_MAX"
  shows "\<exists>F st1.
      cstring_split A v (PyCstring sa) (- 1) st
        = Some (Inr [brk st ..< brk st + length F], st1) \<and>
      F \<noteq> [] \<and> brk st1 = brk st + length F \<and>
      (\<forall>a < brk st. heap st1 a = heap st a) \<and>
      (\<forall>i < length F. \<exists>ob. heap st1 (brk st + i) = Some ob \<and>
          val ob = F ! i @ [NUL] \<and> ob_refcnt ob \<noteq> 0) \<and>
      concat (map (\<lambda>f. f @ sp) (butlast F)) @ last F = hay"
proof -
  from split_cstring_loop_spec [where A = A and hay = hay and sp = sp and s = 0 and list = "[]"
      and m = PY_SSIZE_T_MAX and st = st and t = "spare c" and u = "spare d",
      OF A self(3) sep(3,4)] size
  obtain fs s' st' where
    r: "split_cstring_loop A (hay @ NUL # spare c) (sp @ NUL # spare d) PY_SSIZE_T_MAX 0 [] st
            = Some (Inr (int s', [brk st ..< brk st + length fs]), st')"
      and b: "brk st' = brk st + length fs"
      and old: "\<forall>a < brk st. heap st' a = heap st a"
      and objs: "\<forall>i < length fs. heap st' (brk st + i)
          = Some \<lparr>ob_refcnt = 1, hash = - 1, val = fs ! i @ [NUL], spare = [NUL]\<rparr>"
      and cat: "concat (map (\<lambda>f. f @ sp) fs) @ drop s' hay = hay"
      and le: "s' \<le> length hay"
    by auto
  define l where "l = drop s' hay"
  define stN where "stN = st'\<lparr>heap := (heap st')(brk st' \<mapsto>
          \<lparr>ob_refcnt = 1, hash = - 1, val = l @ [NUL], spare = [NUL]\<rparr>),
          brk := Suc (brk st')\<rparr>"
  define st1 where "st1 = stN\<lparr>heap := (heap stN)(brk st' \<mapsto>
          \<lparr>ob_refcnt = 2, hash = - 1, val = l @ [NUL], spare = [NUL]\<rparr>)\<rparr>"
  have sl: "strlen (hay @ NUL # spare c) (int s') = Inr (int (length hay - s'))"
    by (rule strlen_terminated [OF self(3) le])
  have tk: "take (length hay - s') (drop s' (hay @ NUL # spare c)) = l"
    using le by (simp add: l_def)
  have new: "priv_cstring_new A (hay @ NUL # spare c) (int s') (int (length hay - s')) st'
        = (Inr (brk st'), stN)"
    using priv_cstring_new_ok [of "int (length hay - s')" "int s'" "hay @ NUL # spare c" A st'] A le tk
    by (simp add: stN_def)
  have app: "PyList_Append [brk st ..< brk st + length fs] (brk st') stN
      = ([brk st ..< brk st + length (fs @ [l])], st1)"
    by (simp add: PyList_Append_def Py_INCREF_def stN_def st1_def b)
  have split: "cstring_split A v (PyCstring sa) (- 1) st
      = Some (Inr [brk st ..< brk st + length (fs @ [l])], st1)"
    using self(1,2) sep(1,2)
    by (simp add: cstring_split_def priv_cstring_split_on_cstring_def priv_ensure_cstring_def
        mem_def r sl new app)
  have h1: "heap st1 x = (if x = brk st + length fs
      then Some \<lparr>ob_refcnt = 2, hash = - 1, val = l @ [NUL], spare = [NUL]\<rparr>
      else heap st' x)" for x
    by (simp add: st1_def stN_def b)
  have objs1: "\<forall>i < length (fs @ [l]). \<exists>ob. heap st1 (brk st + i) = Some ob \<and>
          val ob = (fs @ [l]) ! i @ [NUL] \<and> ob_refcnt ob \<noteq> 0"
  proof (intro allI impI)
    fix i assume "i < length (fs @ [l])"
    then consider "i < length fs" | "i = length fs" by fastforce
    then show "\<exists>ob. heap st1 (brk st + i) = Some ob \<and>
          val ob = (fs @ [l]) ! i @ [NUL] \<and> ob_refcnt ob \<noteq> 0"
    proof cases
      case 1
      then show ?thesis using objs by (simp add: h1 nth_append)
    next
      case 2
      then show ?thesis by (simp add: h1)
    qed
  qed
  have old1: "\<forall>a < brk st. heap st1 a = heap st a" using old by (simp add: h1)
  have b1: "brk st1 = brk st + length (fs @ [l])" by (simp add: st1_def stN_def b)
  show ?thesis
    using split b1 old1 objs1 cat
    by (intro exI [of _ "fs @ [l]"] exI [of _ st1]) (simp add: l_def)
qed

text \<open>
  C7. For a value with bytes \<open>hay\<close> and a separator with bytes \<open>sp\<close>, \<open>sp\<close> not empty and
  neither holding a zero byte, \<open>split\<close> with the separator and no \<open>maxsplit\<close> returns a
  list, and \<open>join\<close> of the separator over that list returns an object whose bytes are
  \<open>hay\<close>. The allocator grants every request, the separator lies below the allocation
  frontier, and the length of the value is a \<open>Py_ssize_t\<close>.
\<close>

theorem split_join_roundtrip:
  fixes hay sp :: string
  assumes alloc: "\<forall>k. A k"
    and self: "heap st v = Some c" "val c = hay @ [NUL]" "NUL \<notin> set hay"
    and sep: "heap st sa = Some d" "val d = sp @ [NUL]" "NUL \<notin> set sp" "sp \<noteq> []"
    and frontier: "sa < brk st"
    and size: "int (length hay) < PY_SSIZE_T_MAX"
  shows "split_then_join A v sa st = Some hay"
proof -
  from alloc have A: "\<And>k. A k" by simp
  from cstring_split_spec [of A, OF A self sep size]
  obtain F st1 where
    split: "cstring_split A v (PyCstring sa) (- 1) st
        = Some (Inr [brk st ..< brk st + length F], st1)"
    and ne: "F \<noteq> []" and b1: "brk st1 = brk st + length F"
    and old: "\<forall>a < brk st. heap st1 a = heap st a"
    and objs: "\<forall>i < length F. \<exists>ob. heap st1 (brk st + i) = Some ob \<and>
          val ob = F ! i @ [NUL] \<and> ob_refcnt ob \<noteq> 0"
    and cat: "concat (map (\<lambda>f. f @ sp) (butlast F)) @ last F = hay"
    by blast
  define content where "content a = F ! (a - brk st)" for a
  define rest where "rest = [Suc (brk st) ..< brk st + length F]"
  have L: "[brk st ..< brk st + length F] = brk st # rest"
    using ne by (simp add: rest_def upt_conv_Cons)
  have mapF: "map content [brk st ..< brk st + length F] = F"
  proof -
    have "[brk st ..< brk st + length F] = map (\<lambda>i. i + brk st) [0 ..< length F]"
      using map_add_upt [of "brk st" "length F"] by (simp add: add.commute)
    then have "map content [brk st ..< brk st + length F] = map (\<lambda>i. F ! i) [0 ..< length F]"
      by (simp add: content_def comp_def)
    then show ?thesis by (simp add: map_nth)
  qed
  have sep1: "heap st1 sa = Some d" using old frontier sep(1) by simp
  have items: "\<forall>a\<in>set (brk st # rest). a \<noteq> sa \<and> a < brk st1 \<and>
        (\<exists>ob. heap st1 a = Some ob \<and> val ob = content a @ [NUL] \<and> ob_refcnt ob \<noteq> 0)"
  proof
    fix a assume "a \<in> set (brk st # rest)"
    then have a: "brk st \<le> a" "a < brk st + length F" unfolding L [symmetric] by simp_all
    then obtain i where i: "a = brk st + i" "i < length F"
      by (metis add_diff_inverse_nat nat_add_left_cancel_less not_le)
    with objs frontier b1 show "a \<noteq> sa \<and> a < brk st1 \<and>
        (\<exists>ob. heap st1 a = Some ob \<and> val ob = content a @ [NUL] \<and> ob_refcnt ob \<noteq> 0)"
      by (simp add: content_def)
  qed
  have "sa < brk st1" using frontier b1 by simp
  from join_loop_from_null [of A, OF A sep1 sep(2) this items]
  obtain st2 h' z' where
    j: "join_loop A sa (map PyCstring (brk st # rest)) None st1 = (Inr (Some (brk st1)), st2)"
    and res: "heap st2 (brk st1) = Some \<lparr>ob_refcnt = 1, hash = h',
       val = (content (brk st) @ concat (map (\<lambda>a. sp @ content a) rest)) @ [NUL],
       spare = z'\<rparr>"
    by blast
  have "content (brk st) # map content rest = F" using mapF by (simp add: L)
  then have hdtl: "content (brk st) = hd F" "map content rest = tl F" by auto
  have "concat (map (\<lambda>a. sp @ content a) rest) = concat (map (\<lambda>f. sp @ f) (map content rest))"
    by (simp add: comp_def)
  then have "content (brk st) @ concat (map (\<lambda>a. sp @ content a) rest)
      = hd F @ concat (map (\<lambda>f. sp @ f) (tl F))"
    by (simp add: hdtl)
  also have "\<dots> = hay"
    using intercalate_shift [of sp "butlast F" "last F"] ne cat by simp
  finally have "bytes_at st2 (brk st1) = Some hay"
    using res by (simp add: bytes_at_def)
  with split j show ?thesis
    by (simp add: split_then_join_def cstring_join_def L)
qed

theorem split_join_roundtrip_witness:
  "split_then_join grants_all 0 1 (store [mk ''a,,b'', mk '','']) = Some ''a,,b''"
  by (rule split_join_roundtrip [where c = "mk ''a,,b''" and d = "mk '',''" and sp = "'',''"])
     (simp_all add: store_def mk_def NUL_def PY_SSIZE_T_MAX_def grants_all_def)

text \<open>The fields of the example: \<open>"a,,b"\<close> split at \<open>","\<close> is \<open>"a"\<close>, \<open>""\<close>, \<open>"b"\<close>.\<close>

lemma split_on_separator_example:
  "(case cstring_split grants_all 0 (PyCstring 1) (- 1) (store [mk ''a,,b'', mk '','']) of
      Some (Inr list, st) \<Rightarrow> map (bytes_at st) list = [Some ''a'', Some [], Some ''b'']
    | _ \<Rightarrow> False)"
  by code_simp

text \<open>
  For every value the claim fails: \<open>strstr\<close> and \<open>strlen\<close> stop at a zero byte inside the
  value, so \<open>"a\0b"\<close> split at \<open>","\<close> is the single field \<open>"a"\<close>, and the join is \<open>"a"\<close>.
\<close>

theorem split_join_embedded_zero_counterexample:
  "split_then_join grants_all 0 1 (store [mk (''a'' @ [NUL] @ ''b''), mk '','']) = Some ''a'' \<and>
   bytes_at (store [mk (''a'' @ [NUL] @ ''b''), mk '','']) 0 = Some (''a'' @ [NUL] @ ''b'')"
  by code_simp

end
